theory Spec2Isabelle
  imports Complex_Main "HOL-Library.Product_Lexorder" "HOL-Library.List_Lexorder"
    "HOL-Library.Char_ord" "HOL-Library.Log_Nat"
begin

section \<open>The data store as seen by the analytics queries\<close>

text \<open>
  The module \<^verbatim>\<open>src/queries/analytics.js\<close> reads rows from a remote store and aggregates
  them in memory. The store is an external collaborator: each computation is modelled as a
  function of the responses the store gave to the reads the computation issues, in the
  order the source awaits them. A response is the pair \<^verbatim>\<open>{ data, error }\<close> of the client
  library: \<open>Inl e\<close> is a failed read (\<^verbatim>\<open>data\<close> is null), \<open>Inr rows\<close> a successful one.
  An exception leaving a computation is the result \<open>Inl e\<close> of the model.
\<close>

datatype error = DataStoreError string | TypeError

type_synonym 'row response = "error + 'row list"

text \<open>\<^verbatim>\<open>data?.forEach\<close>, \<^verbatim>\<open>data?.map(...) || []\<close>: a null \<^verbatim>\<open>data\<close> contributes no row.\<close>

definition rows_of :: "'row response \<Rightarrow> 'row list" where
  "rows_of r = (case r of Inl e \<Rightarrow> [] | Inr rows \<Rightarrow> rows)"

text \<open>
  Numbers. A JavaScript number is an IEEE 754 double. A finite double is represented by
  its value, a rational, and every arithmetic operation of the source on prices, averages
  and percentages is the exact operation followed by \<open>fl\<close>, rounding to the nearest double
  (53 significant bits, ties to the even significand, subnormals below \<open>2 powr -1022\<close>).
  Results beyond the largest double (the infinities) and NaN are outside the model.
  Counters that are incremented once per array element stay below \<open>2 ^ 32\<close>, the bound on
  the length of an array, and are integers. Head counts and credits are integer columns,
  whose sums are taken to stay within \<open>2 ^ 53\<close>, where doubles are exact: they are integers
  too.
\<close>

text \<open>The nearest integer, the even one on a tie.\<close>

definition round_even :: "rat \<Rightarrow> int" where
  "round_even x =
     (let f = \<lfloor>x\<rfloor>; r = x - of_int f
      in if r < 1 / 2 then f else if 1 / 2 < r then f + 1 else if even f then f else f + 1)"

text \<open>\<open>ilog2 x\<close> is the integer \<open>k\<close> with \<open>2 ^ k \<le> x < 2 ^ (k + 1)\<close>, for positive \<open>x\<close>.\<close>

definition ilog2 :: "rat \<Rightarrow> int" where
  "ilog2 x = (if 1 \<le> x then bitlen \<lfloor>x\<rfloor> - 1 else - bitlen (\<lceil>1 / x\<rceil> - 1))"

definition pow2 :: "int \<Rightarrow> rat" where
  "pow2 e = (if 0 \<le> e then 2 ^ nat e else 1 / 2 ^ nat (- e))"

definition fl :: "rat \<Rightarrow> rat" where
  "fl x =
     (if x = 0 then 0
      else (let e = max (ilog2 \<bar>x\<bar> - 52) (- 1074);
                m = round_even (\<bar>x\<bar> / pow2 e)
            in sgn x * of_int m * pow2 e))"

text \<open>The operators \<^verbatim>\<open>+\<close>, \<^verbatim>\<open>*\<close> and \<^verbatim>\<open>/\<close> on doubles; no divisor of the source is 0.\<close>

definition dadd :: "rat \<Rightarrow> rat \<Rightarrow> rat" where
  "dadd a b = fl (a + b)"

definition dmul :: "rat \<Rightarrow> rat \<Rightarrow> rat" where
  "dmul a b = fl (a * b)"

definition ddiv :: "rat \<Rightarrow> rat \<Rightarrow> rat" where
  "ddiv a b = fl (a / b)"

text \<open>
  Date values. A date or timestamp column is represented by the instant \<^verbatim>\<open>dayjs(value)\<close>
  parses from it, in milliseconds since the epoch, without time zone.
\<close>

type_synonym instant = int

definition MS_DAY :: int where
  "MS_DAY = 86400000"

definition subtract_days :: "instant \<Rightarrow> int \<Rightarrow> instant" where
  "subtract_days t n = t - n * MS_DAY"

definition isAfter :: "instant \<Rightarrow> instant \<Rightarrow> bool" where
  "isAfter a b = (b < a)"

definition isBefore :: "instant \<Rightarrow> instant \<Rightarrow> bool" where
  "isBefore a b = (a < b)"

text \<open>\<^verbatim>\<open>a.diff(b, 'day')\<close>: whole days, truncated towards zero.\<close>

definition diff_days :: "instant \<Rightarrow> instant \<Rightarrow> int" where
  "diff_days a b = (let d = a - b in if d < 0 then - ((- d) div MS_DAY) else d div MS_DAY)"

text \<open>\<^verbatim>\<open>.day()\<close>: 0 is Sunday; day 0 of the epoch was a Thursday.\<close>

definition day_of_week :: "instant \<Rightarrow> nat" where
  "day_of_week t = nat ((t div MS_DAY + 4) mod 7)"

text \<open>
  \<^verbatim>\<open>.year()\<close> and \<^verbatim>\<open>.month()\<close> (0 is January) of the proleptic Gregorian calendar, from
  the day number.
\<close>

definition civil :: "instant \<Rightarrow> int \<times> int" where
  "civil t =
     (let z = t div MS_DAY + 719468;
          era = z div 146097;
          doe = z mod 146097;
          yoe = (doe - doe div 1460 + doe div 36524 - doe div 146096) div 365;
          doy = doe - (365 * yoe + yoe div 4 - yoe div 100);
          mp = (5 * doy + 2) div 153;
          m = (if mp < 10 then mp + 3 else mp - 9);
          y = yoe + era * 400 + (if m \<le> 2 then 1 else 0)
      in (y, m - 1))"

definition year_of :: "instant \<Rightarrow> int" where
  "year_of t = fst (civil t)"

definition month_of :: "instant \<Rightarrow> int" where
  "month_of t = snd (civil t)"

record profile =
  p_id :: string
  p_full_name :: "string option"
  p_phone :: "string option"

record booking =
  b_user_id :: string
  b_session_date :: "instant option"
  b_session_time :: string
  b_status :: string
  b_total_attendees :: "int option"
  b_coach_name :: string
  b_created_at :: instant

record credit_batch =
  c_id :: string
  c_user_id :: string
  c_package_id :: "string option"
  c_credits_total :: "int option"
  c_credits_remaining :: "int option"
  c_created_at :: instant

record package =
  k_id :: string
  k_title :: "string option"
  k_price :: "rat option"
  k_classes_count :: "int option"

record session =
  s_day_name :: string
  s_class_name :: "string option"
  s_class_subtitle :: "string option"
  s_max_spots :: "int option"

section \<open>JavaScript values and containers\<close>

text \<open>\<^verbatim>\<open>x || d\<close> on a nullable number: null and 0 are falsy.\<close>

definition num_or :: "int option \<Rightarrow> int \<Rightarrow> int" where
  "num_or x d = (case x of None \<Rightarrow> d | Some v \<Rightarrow> if v = 0 then d else v)"

text \<open>\<^verbatim>\<open>x || d\<close> on a nullable double.\<close>

definition dbl_or :: "rat option \<Rightarrow> rat \<Rightarrow> rat" where
  "dbl_or x d = (case x of None \<Rightarrow> d | Some v \<Rightarrow> if v = 0 then d else v)"

text \<open>\<^verbatim>\<open>s || d\<close> on a nullable string: null and the empty string are falsy.\<close>

definition str_or :: "string option \<Rightarrow> string \<Rightarrow> string" where
  "str_or x d = (case x of None \<Rightarrow> d | Some v \<Rightarrow> if v = [] then d else v)"

text \<open>
  \<^verbatim>\<open>Math.round\<close> of a double is the nearest integer to its value, the larger one on a
  tie; \<^verbatim>\<open>Math.ceil\<close>.
\<close>

definition Math_round :: "rat \<Rightarrow> int" where
  "Math_round x = \<lfloor>x + 1 / 2\<rfloor>"

definition Math_ceil :: "rat \<Rightarrow> int" where
  "Math_ceil x = \<lceil>x\<rceil>"

text \<open>
  \<^verbatim>\<open>x.toFixed(1)\<close> of a double: the decimal string with one digit after the point that is
  nearest to the value of \<open>x\<close>, the larger magnitude on a tie. The string is represented
  by its number of tenths.
\<close>

definition toFixed1 :: "rat \<Rightarrow> int" where
  "toFixed1 x = (if x < 0 then - \<lfloor>- x * 10 + 1 / 2\<rfloor> else \<lfloor>x * 10 + 1 / 2\<rfloor>)"

text \<open>\<^verbatim>\<open>xs.slice(start, end)\<close>, negative indices counting from the end.\<close>

definition js_slice :: "'a list \<Rightarrow> int \<Rightarrow> int \<Rightarrow> 'a list" where
  "js_slice xs start fin =
     (let n = int (length xs);
          k = (if start < 0 then max (n + start) 0 else min start n);
          f = (if fin < 0 then max (n + fin) 0 else min fin n)
      in take (nat (f - k)) (drop (nat k) xs))"

text \<open>
  A \<^verbatim>\<open>Map\<close>, and an object used as a dictionary whose keys are not array indices: an
  association list in insertion order. Setting a present key keeps its position.
\<close>

type_synonym ('k, 'v) js_map = "('k \<times> 'v) list"

fun map_set :: "'k \<Rightarrow> 'v \<Rightarrow> ('k, 'v) js_map \<Rightarrow> ('k, 'v) js_map" where
  "map_set k v [] = [(k, v)]"
| "map_set k v ((k', v') # m) = (if k = k' then (k, v) # m else (k', v') # map_set k v m)"

definition map_get :: "('k, 'v) js_map \<Rightarrow> 'k \<Rightarrow> 'v option" where
  "map_get m k = map_of m k"

definition new_Map :: "('k \<times> 'v) list \<Rightarrow> ('k, 'v) js_map" where
  "new_Map entries = foldl (\<lambda>m (k, v). map_set k v m) [] entries"

text \<open>\<^verbatim>\<open>new Set(xs)\<close>: the distinct elements in order of first occurrence.\<close>

definition new_Set :: "'a list \<Rightarrow> 'a list" where
  "new_Set xs = foldl (\<lambda>s x. if x \<in> set s then s else s @ [x]) [] xs"

text \<open>\<^verbatim>\<open>s.trim()\<close> removes leading and trailing white space.\<close>

definition is_space :: "char \<Rightarrow> bool" where
  "is_space c = (c \<in> set [CHR '' '', CHR 0x09, CHR 0x0A, CHR 0x0B, CHR 0x0C, CHR 0x0D])"

definition trim :: "string \<Rightarrow> string" where
  "trim s = rev (dropWhile is_space (rev (dropWhile is_space s)))"

section \<open>The profile cache\<close>

text \<open>
  The module variable \<^verbatim>\<open>profilesCache\<close> is the only state. \<open>reads\<close> counts the reads of
  the profiles table issued so far; \<open>answer k\<close> is what the store answers to read number
  \<open>k\<close>.
\<close>

record process =
  profilesCache :: "(string, profile) js_map option"
  reads :: nat

definition loadProfiles ::
  "(nat \<Rightarrow> profile response) \<Rightarrow> process \<Rightarrow> (string, profile) js_map \<times> process" where
  "loadProfiles answer w =
     (case profilesCache w of
        Some cache \<Rightarrow> (cache, w)
      | None \<Rightarrow>
          (let r = answer (reads w); w' = w\<lparr>reads := reads w + 1\<rparr>
           in case r of
                Inl e \<Rightarrow> ([], w'\<lparr>profilesCache := Some []\<rparr>)
              | Inr data \<Rightarrow>
                  if length data = 0 then ([], w'\<lparr>profilesCache := Some []\<rparr>)
                  else (let m = new_Map (map (\<lambda>p. (p_id p, p)) data)
                        in (m, w'\<lparr>profilesCache := Some m\<rparr>))))"

definition getProfile :: "(string, profile) js_map option \<Rightarrow> string \<Rightarrow> profile option" where
  "getProfile cache userId = (case cache of None \<Rightarrow> None | Some m \<Rightarrow> map_get m userId)"

definition formatUserName :: "string \<Rightarrow> profile option \<Rightarrow> string" where
  "formatUserName userId prof =
     (case prof of
        None \<Rightarrow> ''Usuario '' @ take 8 userId
      | Some p \<Rightarrow>
          (case p_full_name p of
             None \<Rightarrow> ''Usuario '' @ take 8 userId
           | Some n \<Rightarrow> if n \<noteq> [] \<and> trim n \<noteq> [] then n else ''Usuario '' @ take 8 userId))"

definition SIN_TELEFONO :: string where
  "SIN_TELEFONO = ''Sin tel'' @ [CHR 0xC3, CHR 0xA9] @ ''fono''"

definition formatPhone :: "profile option \<Rightarrow> string" where
  "formatPhone prof =
     (case prof of
        None \<Rightarrow> SIN_TELEFONO
      | Some p \<Rightarrow>
          (case p_phone p of
             None \<Rightarrow> SIN_TELEFONO
           | Some n \<Rightarrow> if n \<noteq> [] \<and> trim n \<noteq> [] then n else SIN_TELEFONO))"

section \<open>Dormant clients\<close>

record activity =
  a_date :: instant
  a_type :: string

record dormant_client =
  dc_user_id :: string
  dc_last_activity :: instant
  dc_last_activity_type :: string
  dc_days_inactive :: int
  dc_full_name :: string
  dc_phone :: string

record dormant_result =
  dr_total :: nat
  dr_cutoff_days :: int
  dr_clients :: "dormant_client list"

text \<open>One step of either \<^verbatim>\<open>forEach\<close> over the activity map.\<close>

definition note_activity ::
  "string \<Rightarrow> instant \<Rightarrow> string \<Rightarrow> (string, activity) js_map \<Rightarrow> (string, activity) js_map" where
  "note_activity uid d ty m =
     (case map_get m uid of
        None \<Rightarrow> map_set uid \<lparr>a_date = d, a_type = ty\<rparr> m
      | Some current \<Rightarrow>
          if isAfter d (a_date current) then map_set uid \<lparr>a_date = d, a_type = ty\<rparr> m else m)"

definition bookingDate :: "booking \<Rightarrow> instant" where
  "bookingDate b = (case b_session_date b of Some d \<Rightarrow> d | None \<Rightarrow> b_created_at b)"

definition userActivity :: "booking list \<Rightarrow> credit_batch list \<Rightarrow> (string, activity) js_map" where
  "userActivity bookings creditBatches =
     foldl (\<lambda>m c. note_activity (c_user_id c) (c_created_at c) ''purchase'' m)
       (foldl (\<lambda>m b. note_activity (b_user_id b) (bookingDate b) ''booking'' m) [] bookings)
       creditBatches"

definition dormantUserIds ::
  "instant \<Rightarrow> int \<Rightarrow> (string, activity) js_map \<Rightarrow> (string \<times> activity) list" where
  "dormantUserIds now daysInactive m =
     filter (\<lambda>(userId, act). isBefore (a_date act) (subtract_days now daysInactive)) m"

definition dormant_entry ::
  "instant \<Rightarrow> (string, profile) js_map option \<Rightarrow> string \<times> activity \<Rightarrow> dormant_client" where
  "dormant_entry now cache ua =
     (let prof = getProfile cache (fst ua)
      in \<lparr>dc_user_id = fst ua,
          dc_last_activity = a_date (snd ua),
          dc_last_activity_type = a_type (snd ua),
          dc_days_inactive = diff_days now (a_date (snd ua)),
          dc_full_name = formatUserName (fst ua) prof,
          dc_phone = formatPhone prof\<rparr>)"

text \<open>
  \<open>bookingsR\<close> answers the read of the active bookings, \<open>batchesR\<close> the read of the credit
  batches. \<^verbatim>\<open>sort((a, b) => b.days_inactive - a.days_inactive)\<close> is a stable sort.
\<close>

definition getDormantClients ::
  "instant \<Rightarrow> (string, profile) js_map option \<Rightarrow> int \<Rightarrow>
   booking response \<Rightarrow> credit_batch response \<Rightarrow> error + dormant_result" where
  "getDormantClients now cache daysInactive bookingsR batchesR =
     (case bookingsR of
        Inl bookingsError \<Rightarrow> Inl bookingsError
      | Inr bookings \<Rightarrow>
          (case batchesR of
             Inl batchesError \<Rightarrow> Inl batchesError
           | Inr creditBatches \<Rightarrow>
               (let dormantClients =
                      sort_key (\<lambda>d. - dc_days_inactive d)
                        (map (dormant_entry now cache)
                           (dormantUserIds now daysInactive (userActivity bookings creditBatches)))
                in Inr \<lparr>dr_total = length dormantClients,
                        dr_cutoff_days = daysInactive,
                        dr_clients = dormantClients\<rparr>)))"

record pagination =
  pg_page :: int
  pg_pageSize :: int
  pg_totalPages :: "int option"
  pg_totalItems :: nat

record dormant_page =
  dp_total :: nat
  dp_cutoff_days :: int
  dp_clients :: "dormant_client list"
  dp_pagination :: pagination

text \<open>
  \<^verbatim>\<open>Math.ceil(result.total / pageSize)\<close> is no finite number when \<^verbatim>\<open>pageSize\<close> is 0:
  \<open>None\<close>.
\<close>

definition ceil_ratio :: "nat \<Rightarrow> int \<Rightarrow> int option" where
  "ceil_ratio totalItems pageSize =
     (if pageSize = 0 then None else Some (Math_ceil (of_nat totalItems / of_int pageSize)))"

definition getDormantClientsPaginated ::
  "instant \<Rightarrow> (string, profile) js_map option \<Rightarrow> int \<Rightarrow> int \<Rightarrow> int \<Rightarrow>
   booking response \<Rightarrow> credit_batch response \<Rightarrow> error + dormant_page" where
  "getDormantClientsPaginated now cache daysInactive page pageSize bookingsR batchesR =
     (case getDormantClients now cache daysInactive bookingsR batchesR of
        Inl e \<Rightarrow> Inl e
      | Inr result \<Rightarrow>
          (let startIndex = (page - 1) * pageSize;
               endIndex = startIndex + pageSize
           in Inr \<lparr>dp_total = dr_total result,
                   dp_cutoff_days = dr_cutoff_days result,
                   dp_clients = js_slice (dr_clients result) startIndex endIndex,
                   dp_pagination =
                     \<lparr>pg_page = page,
                      pg_pageSize = pageSize,
                      pg_totalPages = ceil_ratio (dr_total result) pageSize,
                      pg_totalItems = dr_total result\<rparr>\<rparr>))"

section \<open>Package sales\<close>

definition months :: "string list" where
  "months = [''Enero'', ''Febrero'', ''Marzo'', ''Abril'', ''Mayo'', ''Junio'',
             ''Julio'', ''Agosto'', ''Septiembre'', ''Octubre'', ''Noviembre'', ''Diciembre'']"

text \<open>\<^verbatim>\<open>xs[i]\<close> is undefined out of range; \<^verbatim>\<open>xs.indexOf(x)\<close> is -1 when \<open>x\<close> is absent.\<close>

definition at_index :: "'a list \<Rightarrow> int \<Rightarrow> 'a option" where
  "at_index xs i = (if 0 \<le> i \<and> i < int (length xs) then Some (xs ! nat i) else None)"

fun indexOf :: "'a list \<Rightarrow> 'a \<Rightarrow> int" where
  "indexOf [] x = - 1"
| "indexOf (y # ys) x = (if x = y then 0 else (let i = indexOf ys x in if i < 0 then - 1 else i + 1))"

text \<open>A \<^verbatim>\<open>forEach\<close> whose body may throw: the first exception ends the loop.\<close>

fun forEach :: "('s \<Rightarrow> 'a \<Rightarrow> error + 's) \<Rightarrow> 's \<Rightarrow> 'a list \<Rightarrow> error + 's" where
  "forEach f s [] = Inr s"
| "forEach f s (x # xs) = (case f s x of Inl e \<Rightarrow> Inl e | Inr s' \<Rightarrow> forEach f s' xs)"

record month_bucket =
  mb_month :: string
  mb_count :: int
  mb_revenue :: rat
  mb_credits :: int

record range_bucket =
  rb_month :: "string option"
  rb_year :: int
  rb_count :: int
  rb_revenue :: rat
  rb_credits :: int

record type_stat =
  ts_count :: int
  ts_revenue :: rat
  ts_credits :: int
  ts_price :: rat

record named_type_stat =
  nt_name :: string
  nt_count :: int
  nt_revenue :: rat
  nt_credits :: int
  nt_price :: rat

datatype period = Year int | Range instant instant

record 'bucket sales_report =
  sr_period :: period
  sr_total_packages :: int
  sr_total_revenue :: rat
  sr_by_month :: "'bucket list"
  sr_by_package_type :: "named_type_stat list"

record 'key sales_acc =
  salesByMonth :: "'key"
  salesByPackageType :: "(string, type_stat) js_map"
  totalRevenue :: rat
  totalPackages :: int

definition packageMap_of :: "package list \<Rightarrow> (string, package) js_map" where
  "packageMap_of packages = new_Map (map (\<lambda>p. (k_id p, p)) packages)"

text \<open>\<^verbatim>\<open>packageMap.get(batch.package_id)\<close>; no package has a null id.\<close>

definition get_package :: "(string, package) js_map \<Rightarrow> string option \<Rightarrow> package option" where
  "get_package packageMap package_id =
     (case package_id of None \<Rightarrow> None | Some i \<Rightarrow> map_get packageMap i)"

text \<open>\<^verbatim>\<open>pkg?.title || d\<close> and \<^verbatim>\<open>pkg?.price || 0\<close>.\<close>

definition title_or :: "package option \<Rightarrow> string \<Rightarrow> string" where
  "title_or pkg d = (case pkg of None \<Rightarrow> d | Some p \<Rightarrow> str_or (k_title p) d)"

definition price_or_0 :: "package option \<Rightarrow> rat" where
  "price_or_0 pkg = (case pkg of None \<Rightarrow> 0 | Some p \<Rightarrow> dbl_or (k_price p) 0)"

text \<open>The part of the loop body on \<^verbatim>\<open>salesByPackageType\<close>, the same in both sales reports.\<close>

definition count_type ::
  "package option \<Rightarrow> credit_batch \<Rightarrow> (string, type_stat) js_map \<Rightarrow> (string, type_stat) js_map" where
  "count_type pkg batch byType =
     (let packageName = title_or pkg ''Paquete Desconocido'';
          amount = price_or_0 pkg;
          cur = (case map_get byType packageName of
                   None \<Rightarrow> \<lparr>ts_count = 0, ts_revenue = 0, ts_credits = 0, ts_price = price_or_0 pkg\<rparr>
                 | Some t \<Rightarrow> t)
      in map_set packageName
           (cur\<lparr>ts_count := ts_count cur + 1,
                ts_revenue := dadd (ts_revenue cur) amount,
                ts_credits := ts_credits cur + num_or (c_credits_total batch) 0\<rparr>)
           byType)"

definition by_package_type :: "(string, type_stat) js_map \<Rightarrow> named_type_stat list" where
  "by_package_type byType =
     sort_key (\<lambda>t. - nt_count t)
       (map (\<lambda>(name, t). \<lparr>nt_name = name, nt_count = ts_count t, nt_revenue = ts_revenue t,
                           nt_credits = ts_credits t, nt_price = ts_price t\<rparr>) byType)"

text \<open>
  The loop body of \<^verbatim>\<open>getPackageSalesByMonth\<close>. \<^verbatim>\<open>salesByMonth[month].count++\<close> throws a
  TypeError when \<^verbatim>\<open>salesByMonth[month]\<close> is undefined.
\<close>

definition month_step ::
  "(string, package) js_map \<Rightarrow> (int, month_bucket) js_map sales_acc \<Rightarrow> credit_batch \<Rightarrow>
   error + (int, month_bucket) js_map sales_acc" where
  "month_step packageMap acc batch =
     (let month = month_of (c_created_at batch) + 1;
          pkg = get_package packageMap (c_package_id batch);
          amount = price_or_0 pkg
      in case map_get (salesByMonth acc) month of
           None \<Rightarrow> Inl TypeError
         | Some b \<Rightarrow>
             Inr \<lparr>salesByMonth =
                    map_set month
                      (b\<lparr>mb_count := mb_count b + 1,
                         mb_revenue := dadd (mb_revenue b) amount,
                         mb_credits := mb_credits b + num_or (c_credits_total batch) 0\<rparr>)
                      (salesByMonth acc),
                  salesByPackageType = count_type pkg batch (salesByPackageType acc),
                  totalRevenue = dadd (totalRevenue acc) amount,
                  totalPackages = totalPackages acc + 1\<rparr>)"

text \<open>The twelve buckets present before the loop, under the keys 1 to 12.\<close>

definition initial_months :: "(int, month_bucket) js_map" where
  "initial_months =
     map (\<lambda>(i, month). (int i + 1, \<lparr>mb_month = month, mb_count = 0, mb_revenue = 0, mb_credits = 0\<rparr>))
       (enumerate 0 months)"

text \<open>
  \<open>batchesR\<close> answers the read of the credit batches of the year, \<open>packagesR\<close> the read of
  the packages.
\<close>

definition getPackageSalesByMonth ::
  "int \<Rightarrow> credit_batch response \<Rightarrow> package response \<Rightarrow> error + month_bucket sales_report" where
  "getPackageSalesByMonth year batchesR packagesR =
     (case batchesR of
        Inl batchesError \<Rightarrow> Inl batchesError
      | Inr creditBatches \<Rightarrow>
          (case packagesR of
             Inl pkgError \<Rightarrow> Inl pkgError
           | Inr packages \<Rightarrow>
               (case forEach (month_step (packageMap_of packages))
                       \<lparr>salesByMonth = initial_months, salesByPackageType = [],
                        totalRevenue = 0, totalPackages = 0\<rparr>
                       creditBatches of
                  Inl e \<Rightarrow> Inl e
                | Inr acc \<Rightarrow>
                    Inr \<lparr>sr_period = Year year,
                         sr_total_packages = totalPackages acc,
                         sr_total_revenue = totalRevenue acc,
                         sr_by_month = map snd (salesByMonth acc),
                         sr_by_package_type = by_package_type (salesByPackageType acc)\<rparr>)))"

text \<open>
  The loop body of \<^verbatim>\<open>getPackageSalesByDateRange\<close>; the key \<^verbatim>\<open>`${year}-${monthIndex}`\<close> is
  the pair of year and month index.
\<close>

definition range_step ::
  "(string, package) js_map \<Rightarrow> (int \<times> int, range_bucket) js_map sales_acc \<Rightarrow> credit_batch \<Rightarrow>
   (int \<times> int, range_bucket) js_map sales_acc" where
  "range_step packageMap acc batch =
     (let monthIndex = month_of (c_created_at batch);
          monthKey = (year_of (c_created_at batch), monthIndex);
          pkg = get_package packageMap (c_package_id batch);
          amount = price_or_0 pkg;
          b = (case map_get (salesByMonth acc) monthKey of
                 None \<Rightarrow> \<lparr>rb_month = at_index months monthIndex,
                           rb_year = year_of (c_created_at batch),
                           rb_count = 0, rb_revenue = 0, rb_credits = 0\<rparr>
               | Some b \<Rightarrow> b)
      in \<lparr>salesByMonth =
             map_set monthKey
               (b\<lparr>rb_count := rb_count b + 1,
                  rb_revenue := dadd (rb_revenue b) amount,
                  rb_credits := rb_credits b + num_or (c_credits_total batch) 0\<rparr>)
               (salesByMonth acc),
           salesByPackageType = count_type pkg batch (salesByPackageType acc),
           totalRevenue = dadd (totalRevenue acc) amount,
           totalPackages = totalPackages acc + 1\<rparr>)"

definition month_index :: "string option \<Rightarrow> int" where
  "month_index m = (case m of None \<Rightarrow> - 1 | Some s \<Rightarrow> indexOf months s)"

definition getPackageSalesByDateRange ::
  "instant \<Rightarrow> instant \<Rightarrow> credit_batch response \<Rightarrow> package response \<Rightarrow>
   error + range_bucket sales_report" where
  "getPackageSalesByDateRange startDate endDate batchesR packagesR =
     (case batchesR of
        Inl batchesError \<Rightarrow> Inl batchesError
      | Inr creditBatches \<Rightarrow>
          (case packagesR of
             Inl pkgError \<Rightarrow> Inl pkgError
           | Inr packages \<Rightarrow>
               (let acc = foldl (range_step (packageMap_of packages))
                            \<lparr>salesByMonth = [], salesByPackageType = [],
                             totalRevenue = 0, totalPackages = 0\<rparr>
                            creditBatches
                in Inr \<lparr>sr_period = Range startDate endDate,
                        sr_total_packages = totalPackages acc,
                        sr_total_revenue = totalRevenue acc,
                        sr_by_month =
                          sort_key (\<lambda>b. (rb_year b, month_index (rb_month b)))
                            (map snd (salesByMonth acc)),
                        sr_by_package_type = by_package_type (salesByPackageType acc)\<rparr>)))"

section \<open>Top buyers\<close>

record user_stat =
  us_user_id :: string
  us_total_purchases :: int
  us_total_spent :: rat
  us_total_credits :: int
  us_packages :: "string list"

record buyer =
  by_rank :: int
  by_user_id :: string
  by_total_purchases :: int
  by_total_spent :: rat
  by_total_credits :: int
  by_packages :: "string list"
  by_full_name :: string
  by_phone :: string
  by_favorite_package :: string

definition getMostFrequent :: "string list \<Rightarrow> string" where
  "getMostFrequent arr =
     (if length arr = 0 then ''N/A''
      else (let counts = foldl (\<lambda>m item. map_set item (num_or (map_get m item) 0 + 1) m) [] arr
            in case sort_key (\<lambda>e. - snd e) counts of
                 [] \<Rightarrow> ''N/A''
               | e # es \<Rightarrow> if fst e = [] then ''N/A'' else fst e))"

text \<open>The loop body over the credit batches, the same in both rankings.\<close>

definition buyer_step ::
  "(string, package) js_map \<Rightarrow> (string, user_stat) js_map \<Rightarrow> credit_batch \<Rightarrow>
   (string, user_stat) js_map" where
  "buyer_step packageMap userStats batch =
     (let pkg = get_package packageMap (c_package_id batch);
          amount = price_or_0 pkg;
          cur = (case map_get userStats (c_user_id batch) of
                   None \<Rightarrow> \<lparr>us_user_id = c_user_id batch, us_total_purchases = 0,
                             us_total_spent = 0, us_total_credits = 0, us_packages = []\<rparr>
                 | Some s \<Rightarrow> s)
      in map_set (c_user_id batch)
           (cur\<lparr>us_total_purchases := us_total_purchases cur + 1,
                us_total_spent := dadd (us_total_spent cur) amount,
                us_total_credits := us_total_credits cur + num_or (c_credits_total batch) 0,
                us_packages := us_packages cur @ [title_or pkg ''Desconocido'']\<rparr>)
           userStats)"

text \<open>
  The final \<^verbatim>\<open>map((buyer, index) => ...)\<close>. Before it the buyers are sorted with the
  comparator \<^verbatim>\<open>b.total_spent - a.total_spent\<close>, whose sign is that of the exact difference:
  a stable sort by descending \<open>total_spent\<close>.
\<close>

definition ranked ::
  "(string, profile) js_map option \<Rightarrow> nat \<times> user_stat \<Rightarrow> buyer" where
  "ranked cache ib =
     (let prof = getProfile cache (us_user_id (snd ib))
      in \<lparr>by_rank = int (fst ib) + 1,
          by_user_id = us_user_id (snd ib),
          by_total_purchases = us_total_purchases (snd ib),
          by_total_spent = us_total_spent (snd ib),
          by_total_credits = us_total_credits (snd ib),
          by_packages = us_packages (snd ib),
          by_full_name = formatUserName (us_user_id (snd ib)) prof,
          by_phone = formatPhone prof,
          by_favorite_package = getMostFrequent (us_packages (snd ib))\<rparr>)"

text \<open>
  \<open>batchesR\<close> answers the read of the credit batches of the year, \<open>packagesR\<close> the read of
  the packages, whose error the source does not look at.
\<close>

definition getTopBuyers ::
  "(string, profile) js_map option \<Rightarrow> int \<Rightarrow> int \<Rightarrow>
   credit_batch response \<Rightarrow> package response \<Rightarrow> error + buyer list" where
  "getTopBuyers cache year limit batchesR packagesR =
     (case batchesR of
        Inl batchesError \<Rightarrow> Inl batchesError
      | Inr creditBatches \<Rightarrow>
          (let packageMap = packageMap_of (rows_of packagesR);
               userStats = foldl (buyer_step packageMap) [] creditBatches;
               topBuyers = js_slice (sort_key (\<lambda>s. - us_total_spent s) (map snd userStats)) 0 limit
           in Inr (map (ranked cache) (enumerate 0 topBuyers))))"

definition getTopBuyersByDateRange ::
  "(string, profile) js_map option \<Rightarrow> instant \<Rightarrow> instant \<Rightarrow> int \<Rightarrow>
   credit_batch response \<Rightarrow> package response \<Rightarrow> error + buyer list" where
  "getTopBuyersByDateRange cache startDate endDate limit batchesR packagesR =
     (case batchesR of
        Inl batchesError \<Rightarrow> Inl batchesError
      | Inr creditBatches \<Rightarrow>
          (let packageMap = packageMap_of (rows_of packagesR);
               userStats = foldl (buyer_step packageMap) [] creditBatches;
               topBuyers = js_slice (sort_key (\<lambda>s. - us_total_spent s) (map snd userStats)) 0 limit
           in Inr (map (ranked cache) (enumerate 0 topBuyers))))"

section \<open>Retention metrics\<close>

text \<open>
  A rate is the number 0 or the string \<^verbatim>\<open>toFixed(1)\<close> returns, kept as its tenths.
\<close>

datatype rate = Number int | Fixed1 int

definition rate_value :: "rate \<Rightarrow> rat" where
  "rate_value r = (case r of Number n \<Rightarrow> of_int n | Fixed1 t \<Rightarrow> of_int t / 10)"

record retention =
  rt_total_registered_users :: int
  rt_total_unique_users :: int
  rt_active_users_30_days :: int
  rt_total_buyers_ever :: int
  rt_buyers_last_30_days :: int
  rt_users_with_credits :: int
  rt_total_credits_pending :: int
  rt_retention_rate :: rate
  rt_conversion_rate :: rate

definition set_size :: "'a list \<Rightarrow> int" where
  "set_size xs = int (length (new_Set xs))"

definition percent1 :: "int \<Rightarrow> int \<Rightarrow> rate" where
  "percent1 part whole =
     (if whole > 0 then Fixed1 (toFixed1 (dmul (ddiv (of_int part) (of_int whole)) 100)) else Number 0)"

text \<open>
  The four responses answer, in order: all bookings, the bookings from 30 days ago on, all
  credit batches, the credit batches with credits left. No error is looked at.
\<close>

definition getRetentionMetrics ::
  "instant \<Rightarrow> (string, profile) js_map option \<Rightarrow>
   booking response \<Rightarrow> booking response \<Rightarrow> credit_batch response \<Rightarrow> credit_batch response \<Rightarrow>
   error + retention" where
  "getRetentionMetrics now cache allBookingsR recentBookingsR allBatchesR activeBatchesR =
     (let totalUniqueUsers = set_size (map b_user_id (rows_of allBookingsR));
          activeUsers30 = set_size (map b_user_id (rows_of recentBookingsR));
          buyersTotal = set_size (map c_user_id (rows_of allBatchesR));
          buyers30 = set_size (map c_user_id
                       (filter (\<lambda>b. isAfter (c_created_at b) (subtract_days now 30))
                          (rows_of allBatchesR)));
          usersWithCredits = set_size (map c_user_id (rows_of activeBatchesR));
          totalCreditsAvailable =
            foldl (\<lambda>sum b. sum + (case c_credits_remaining b of None \<Rightarrow> 0 | Some n \<Rightarrow> n)) 0
              (rows_of activeBatchesR);
          profileCount =
            (case cache of
               None \<Rightarrow> totalUniqueUsers
             | Some m \<Rightarrow> if length m = 0 then totalUniqueUsers else int (length m))
      in Inr \<lparr>rt_total_registered_users = profileCount,
              rt_total_unique_users = totalUniqueUsers,
              rt_active_users_30_days = activeUsers30,
              rt_total_buyers_ever = buyersTotal,
              rt_buyers_last_30_days = buyers30,
              rt_users_with_credits = usersWithCredits,
              rt_total_credits_pending = totalCreditsAvailable,
              rt_retention_rate = percent1 activeUsers30 totalUniqueUsers,
              rt_conversion_rate = percent1 buyersTotal totalUniqueUsers\<rparr>)"

section \<open>Attendance statistics\<close>

record coach_stat =
  cs_name :: string
  cs_classes :: int
  cs_attendees :: int

record time_stat =
  tm_time :: string
  tm_count :: int
  tm_attendees :: int

record attendance =
  at_by_coach :: "coach_stat list"
  at_by_time :: "time_stat list"
  at_total_bookings :: int
  at_total_attendees :: int

definition coach_step :: "(string, coach_stat) js_map \<Rightarrow> booking \<Rightarrow> (string, coach_stat) js_map" where
  "coach_step coachStats b =
     (let cur = (case map_get coachStats (b_coach_name b) of
                   None \<Rightarrow> \<lparr>cs_name = b_coach_name b, cs_classes = 0, cs_attendees = 0\<rparr>
                 | Some c \<Rightarrow> c)
      in map_set (b_coach_name b)
           (cur\<lparr>cs_classes := cs_classes cur + 1,
                cs_attendees := cs_attendees cur + num_or (b_total_attendees b) 1\<rparr>)
           coachStats)"

definition time_step :: "(string, time_stat) js_map \<Rightarrow> booking \<Rightarrow> (string, time_stat) js_map" where
  "time_step timeStats b =
     (let cur = (case map_get timeStats (b_session_time b) of
                   None \<Rightarrow> \<lparr>tm_time = b_session_time b, tm_count = 0, tm_attendees = 0\<rparr>
                 | Some t \<Rightarrow> t)
      in map_set (b_session_time b)
           (cur\<lparr>tm_count := tm_count cur + 1,
                tm_attendees := tm_attendees cur + num_or (b_total_attendees b) 1\<rparr>)
           timeStats)"

text \<open>\<open>bookingsR\<close> answers the read of the active bookings; its error is not looked at.\<close>

definition getAttendanceStats :: "booking response \<Rightarrow> error + attendance" where
  "getAttendanceStats bookingsR =
     (let bookings = rows_of bookingsR;
          coachStats = foldl coach_step [] bookings;
          timeStats = foldl time_step [] bookings
      in Inr \<lparr>at_by_coach = sort_key (\<lambda>c. - cs_attendees c) (map snd coachStats),
              at_by_time = sort_key (\<lambda>t. - tm_count t) (map snd timeStats),
              at_total_bookings = int (length bookings),
              at_total_attendees =
                foldl (\<lambda>sum b. sum + num_or (b_total_attendees b) 1) 0 bookings\<rparr>)"

section \<open>Weekly schedule with occupancy\<close>

definition MIERCOLES :: string where
  "MIERCOLES = ''MI'' @ [CHR 0xC3, CHR 0x89] @ ''RCOLES''"

definition SABADO :: string where
  "SABADO = ''S'' @ [CHR 0xC3, CHR 0x81] @ ''BADO''"

definition dayOrder :: "string list" where
  "dayOrder = [''LUNES'', ''MARTES'', MIERCOLES, ''JUEVES'', ''VIERNES'', SABADO]"

definition dayMap :: "string list" where
  "dayMap = [''DOMINGO'', ''LUNES'', ''MARTES'', MIERCOLES, ''JUEVES'', ''VIERNES'', SABADO]"

record session_info =
  si_class_name :: "string option"
  si_subtitle :: "string option"
  si_max_capacity :: int

definition sessionMap_of :: "session list \<Rightarrow> (string, session_info) js_map" where
  "sessionMap_of sessions =
     foldl (\<lambda>m s. case map_get m (s_day_name s) of
                     Some i \<Rightarrow> m
                   | None \<Rightarrow> map_set (s_day_name s)
                               \<lparr>si_class_name = s_class_name s,
                                si_subtitle = s_class_subtitle s,
                                si_max_capacity = num_or (s_max_spots s) 14\<rparr> m)
       [] sessions"

text \<open>
  Step 1 groups the bookings by date and time; the key \<^verbatim>\<open>`${b.session_date}-${time}`\<close> is
  the pair of the two.
\<close>

record class_occurrence =
  co_date :: "instant option"
  co_time :: string
  co_total_attendees :: int

definition class_step ::
  "(instant option \<times> string, class_occurrence) js_map \<Rightarrow> booking \<Rightarrow>
   (instant option \<times> string, class_occurrence) js_map" where
  "class_step classesByDatetime b =
     (let time = take 5 (b_session_time b);
          key = (b_session_date b, time);
          cur = (case map_get classesByDatetime key of
                   None \<Rightarrow> \<lparr>co_date = b_session_date b, co_time = time, co_total_attendees = 0\<rparr>
                 | Some c \<Rightarrow> c)
      in map_set key
           (cur\<lparr>co_total_attendees := co_total_attendees cur + num_or (b_total_attendees b) 1\<rparr>)
           classesByDatetime)"

text \<open>
  Step 2 groups the occurrences by weekday and time. The day name is undefined for a null
  date. The temporary array \<^verbatim>\<open>attendees_per_class\<close>, deleted in step 3, is left out.
\<close>

record slot =
  sl_day :: "string option"
  sl_time :: string
  sl_class_name :: string
  sl_subtitle :: string
  sl_max_capacity :: int
  sl_total_classes :: int
  sl_total_attendees :: int
  sl_avg_attendance :: rat
  sl_occupancy_rate :: int

definition day_name_of :: "instant option \<Rightarrow> string option" where
  "day_name_of date = (case date of None \<Rightarrow> None | Some d \<Rightarrow> Some (dayMap ! day_of_week d))"

definition new_slot ::
  "(string, session_info) js_map \<Rightarrow> string option \<Rightarrow> string \<Rightarrow> slot" where
  "new_slot sessionMap dayName time =
     (let sessionInfo = (case dayName of None \<Rightarrow> None | Some d \<Rightarrow> map_get sessionMap d)
      in \<lparr>sl_day = dayName,
          sl_time = time,
          sl_class_name = (case sessionInfo of None \<Rightarrow> ''Clase''
                           | Some i \<Rightarrow> str_or (si_class_name i) ''Clase''),
          sl_subtitle = (case sessionInfo of None \<Rightarrow> '''' | Some i \<Rightarrow> str_or (si_subtitle i) ''''),
          sl_max_capacity = (case sessionInfo of None \<Rightarrow> 14
                             | Some i \<Rightarrow> num_or (Some (si_max_capacity i)) 14),
          sl_total_classes = 0,
          sl_total_attendees = 0,
          sl_avg_attendance = 0,
          sl_occupancy_rate = 0\<rparr>)"

definition slot_step ::
  "(string, session_info) js_map \<Rightarrow> (string option \<times> string, slot) js_map \<Rightarrow>
   class_occurrence \<Rightarrow> (string option \<times> string, slot) js_map" where
  "slot_step sessionMap scheduleStats cls =
     (let dayName = day_name_of (co_date cls);
          key = (dayName, co_time cls);
          cur = (case map_get scheduleStats key of
                   None \<Rightarrow> new_slot sessionMap dayName (co_time cls)
                 | Some s \<Rightarrow> s)
      in map_set key
           (cur\<lparr>sl_total_classes := sl_total_classes cur + 1,
                sl_total_attendees := sl_total_attendees cur + co_total_attendees cls\<rparr>)
           scheduleStats)"

text \<open>Step 3 computes the averages of one slot.\<close>

definition averages :: "slot \<Rightarrow> slot" where
  "averages s =
     (if sl_total_classes s > 0
      then (let avg = ddiv (of_int (Math_round
                        (dmul (ddiv (of_int (sl_total_attendees s)) (of_int (sl_total_classes s)))
                           10))) 10
            in s\<lparr>sl_avg_attendance := avg,
                 sl_occupancy_rate :=
                   Math_round (dmul (ddiv avg (of_int (sl_max_capacity s))) 100)\<rparr>)
      else s)"

text \<open>
  \<open>bookingsR\<close> answers the read of the active and completed bookings of the last 30 days,
  \<open>sessionsR\<close> the read of the sessions, whose error is not looked at. The result is the
  object \<^verbatim>\<open>byDay\<close>, as the list of its entries; the empty object is the empty list.
  \<^verbatim>\<open>localeCompare\<close> orders the time strings, digits and colons, as their characters do.
\<close>

definition getWeeklySchedule ::
  "booking response \<Rightarrow> session response \<Rightarrow> error + (string \<times> slot list) list" where
  "getWeeklySchedule bookingsR sessionsR =
     (case bookingsR of
        Inl bookErr \<Rightarrow> Inr []
      | Inr bookings \<Rightarrow>
          (let sessionMap = sessionMap_of (rows_of sessionsR);
               classesByDatetime = foldl class_step [] bookings;
               scheduleStats = foldl (slot_step sessionMap) [] (map snd classesByDatetime);
               stats = map averages (map snd scheduleStats)
           in Inr (map (\<lambda>day. (day, sort_key sl_time (filter (\<lambda>s. sl_day s = Some day) stats)))
                     dayOrder)))"

section \<open>Credits comparison\<close>

record period_stats =
  ps_credits_purchased :: int
  ps_credits_used :: int
  ps_unique_buyers :: int
  ps_active_clients :: int

record credits_comparison =
  cc_period1 :: period_stats
  cc_period2 :: period_stats
  cc_recurring_clients :: int
  cc_recurring_percentage :: int

definition credits_purchased :: "credit_batch response \<Rightarrow> int" where
  "credits_purchased batchesR =
     foldl (\<lambda>sum b. sum + num_or (c_credits_total b) 0) 0 (rows_of batchesR)"

definition credits_used :: "booking response \<Rightarrow> int" where
  "credits_used bookingsR =
     foldl (\<lambda>sum b. sum + num_or (b_total_attendees b) 1) 0 (rows_of bookingsR)"

text \<open>
  The four responses answer, in order: the credit batches and the active bookings of
  period 1, then those of period 2. No error is looked at.
\<close>

definition getCreditsComparison ::
  "credit_batch response \<Rightarrow> booking response \<Rightarrow> credit_batch response \<Rightarrow> booking response \<Rightarrow>
   error + credits_comparison" where
  "getCreditsComparison batches1R bookings1R batches2R bookings2R =
     (let users1 = new_Set (map c_user_id (rows_of batches1R));
          users2 = new_Set (map c_user_id (rows_of batches2R));
          recurring = filter (\<lambda>u. u \<in> set users2) users1
      in Inr \<lparr>cc_period1 =
                \<lparr>ps_credits_purchased = credits_purchased batches1R,
                 ps_credits_used = credits_used bookings1R,
                 ps_unique_buyers = int (length users1),
                 ps_active_clients = set_size (map b_user_id (rows_of bookings1R))\<rparr>,
              cc_period2 =
                \<lparr>ps_credits_purchased = credits_purchased batches2R,
                 ps_credits_used = credits_used bookings2R,
                 ps_unique_buyers = int (length users2),
                 ps_active_clients = set_size (map b_user_id (rows_of bookings2R))\<rparr>,
              cc_recurring_clients = int (length recurring),
              cc_recurring_percentage =
                (if length users1 > 0
                 then Math_round
                        (dmul (ddiv (of_int (int (length recurring))) (of_int (int (length users1))))
                           100)
                 else 0)\<rparr>)"

section \<open>Notions used in the statements and their proofs\<close>

text \<open>The dates of all events of one user, in the two sources of the dormancy report.\<close>

definition activity_dates :: "booking list \<Rightarrow> credit_batch list \<Rightarrow> string \<Rightarrow> instant list" where
  "activity_dates bookings batches u =
     map bookingDate (filter (\<lambda>b. b_user_id b = u) bookings) @
     map c_created_at (filter (\<lambda>c. c_user_id c = u) batches)"

text \<open>The latest of a current date, if any, and a list of dates.\<close>

definition latest :: "instant option \<Rightarrow> instant list \<Rightarrow> instant option" where
  "latest cur ds = (case cur of None \<Rightarrow> (if ds = [] then None else Some (Max (set ds)))
                    | Some c \<Rightarrow> Some (Max (set (c # ds))))"

text \<open>The clients of one page; none when the page could not be computed.\<close>

definition page_clients :: "error + dormant_page \<Rightarrow> dormant_client list" where
  "page_clients res = (case res of Inl e \<Rightarrow> [] | Inr pg \<Rightarrow> dp_clients pg)"

text \<open>Rows for the examples.\<close>

definition mk_booking :: "string \<Rightarrow> instant option \<Rightarrow> string \<Rightarrow> int option \<Rightarrow> booking" where
  "mk_booking u d t n =
     \<lparr>b_user_id = u, b_session_date = d, b_session_time = t, b_status = ''active'',
      b_total_attendees = n, b_coach_name = ''Coach'', b_created_at = 0\<rparr>"

definition mk_batch :: "string \<Rightarrow> string option \<Rightarrow> int option \<Rightarrow> instant \<Rightarrow> credit_batch" where
  "mk_batch u p n t =
     \<lparr>c_id = ''batch'', c_user_id = u, c_package_id = p, c_credits_total = n,
      c_credits_remaining = n, c_created_at = t\<rparr>"

text \<open>Ranks are 1, 2, ... in order and the amounts spent never increase along the list.\<close>

definition dense_descending :: "buyer list \<Rightarrow> bool" where
  "dense_descending result \<longleftrightarrow>
     map by_rank result = map int [1..<Suc (length result)] \<and>
     sorted_wrt (\<ge>) (map by_total_spent result)"

text \<open>
  One package bought three times in January 2026 (day 20454 of the epoch is 2026-01-01),
  and the two reports expected for it.
\<close>

definition ten_class :: package where
  "ten_class = \<lparr>k_id = ''1'', k_title = Some ''10-class'', k_price = Some 100,
                 k_classes_count = Some 10\<rparr>"

definition fifty_class :: package where
  "fifty_class = \<lparr>k_id = ''2'', k_title = Some ''50-class'', k_price = Some 450,
                   k_classes_count = Some 50\<rparr>"

definition january_batches :: "credit_batch list" where
  "january_batches =
     [mk_batch ''ana'' (Some ''1'') (Some 10) (20458 * MS_DAY),
      mk_batch ''bea'' (Some ''1'') (Some 10) (20468 * MS_DAY),
      mk_batch ''ana'' (Some ''1'') (Some 10) (20478 * MS_DAY)]"

definition january_by_month :: "month_bucket sales_report" where
  "january_by_month =
     \<lparr>sr_period = Year 2026, sr_total_packages = 3, sr_total_revenue = 300,
      sr_by_month =
        map (\<lambda>(m, c, r, k). \<lparr>mb_month = m, mb_count = c, mb_revenue = r, mb_credits = k\<rparr>)
          [(''Enero'', 3, 300, 30), (''Febrero'', 0, 0, 0), (''Marzo'', 0, 0, 0),
           (''Abril'', 0, 0, 0), (''Mayo'', 0, 0, 0), (''Junio'', 0, 0, 0),
           (''Julio'', 0, 0, 0), (''Agosto'', 0, 0, 0), (''Septiembre'', 0, 0, 0),
           (''Octubre'', 0, 0, 0), (''Noviembre'', 0, 0, 0), (''Diciembre'', 0, 0, 0)],
      sr_by_package_type =
        [\<lparr>nt_name = ''10-class'', nt_count = 3, nt_revenue = 300, nt_credits = 30,
          nt_price = 100\<rparr>]\<rparr>"

definition january_by_range :: "range_bucket sales_report" where
  "january_by_range =
     \<lparr>sr_period = Range (20454 * MS_DAY) (20484 * MS_DAY), sr_total_packages = 3,
      sr_total_revenue = 300,
      sr_by_month =
        [\<lparr>rb_month = Some ''Enero'', rb_year = 2026, rb_count = 3, rb_revenue = 300,
          rb_credits = 30\<rparr>],
      sr_by_package_type =
        [\<lparr>nt_name = ''10-class'', nt_count = 3, nt_revenue = 300, nt_credits = 30,
          nt_price = 100\<rparr>]\<rparr>"

text \<open>Three buyers of two packages, and the first two of their ranking.\<close>

definition buyer_batches :: "credit_batch list" where
  "buyer_batches =
     [mk_batch ''ana'' (Some ''1'') (Some 10) (20458 * MS_DAY),
      mk_batch ''bea'' (Some ''2'') (Some 50) (20468 * MS_DAY),
      mk_batch ''cam'' (Some ''1'') (Some 10) (20470 * MS_DAY),
      mk_batch ''ana'' (Some ''1'') (Some 10) (20478 * MS_DAY)]"

definition top_two :: "buyer list" where
  "top_two =
     [\<lparr>by_rank = 1, by_user_id = ''bea'', by_total_purchases = 1, by_total_spent = 450,
       by_total_credits = 50, by_packages = [''50-class''], by_full_name = ''Usuario bea'',
       by_phone = SIN_TELEFONO, by_favorite_package = ''50-class''\<rparr>,
      \<lparr>by_rank = 2, by_user_id = ''ana'', by_total_purchases = 2, by_total_spent = 200,
       by_total_credits = 20, by_packages = [''10-class'', ''10-class''],
       by_full_name = ''Usuario ana'', by_phone = SIN_TELEFONO,
       by_favorite_package = ''10-class''\<rparr>]"

text \<open>
  The attendees of one booking: its \<open>total_attendees\<close>, and 1 where that is missing, null
  or 0.
\<close>

definition attendees_of :: "booking \<Rightarrow> int" where
  "attendees_of b = (case b_total_attendees b of None \<Rightarrow> 1 | Some n \<Rightarrow> if n = 0 then 1 else n)"

text \<open>
  Four bookings of two coaches: on Monday 2026-01-05 at 09:00 one without a head count, one
  with the head count 0 and one for three persons; on the Tuesday at 18:30 one without a
  head count. The statistics and the schedule expected for them, and the comparison of
  the credits expected when they are the bookings of the first period.
\<close>

definition studio_bookings :: "booking list" where
  "studio_bookings =
     [(mk_booking ''ana'' (Some (20458 * MS_DAY)) ''09:00:00'' None)\<lparr>b_coach_name := ''Luz''\<rparr>,
      (mk_booking ''bea'' (Some (20458 * MS_DAY)) ''09:00:00'' (Some 0))\<lparr>b_coach_name := ''Luz''\<rparr>,
      (mk_booking ''cam'' (Some (20458 * MS_DAY)) ''09:00:00'' (Some 3))\<lparr>b_coach_name := ''Mar''\<rparr>,
      (mk_booking ''dana'' (Some (20459 * MS_DAY)) ''18:30:00'' None)\<lparr>b_coach_name := ''Mar''\<rparr>]"

definition studio_attendance :: attendance where
  "studio_attendance =
     \<lparr>at_by_coach =
        [\<lparr>cs_name = ''Mar'', cs_classes = 2, cs_attendees = 4\<rparr>,
         \<lparr>cs_name = ''Luz'', cs_classes = 2, cs_attendees = 2\<rparr>],
      at_by_time =
        [\<lparr>tm_time = ''09:00:00'', tm_count = 3, tm_attendees = 5\<rparr>,
         \<lparr>tm_time = ''18:30:00'', tm_count = 1, tm_attendees = 1\<rparr>],
      at_total_bookings = 4, at_total_attendees = 6\<rparr>"

definition studio_monday :: slot where
  "studio_monday =
     \<lparr>sl_day = Some ''LUNES'', sl_time = ''09:00'', sl_class_name = ''Clase'', sl_subtitle = '''',
      sl_max_capacity = 14, sl_total_classes = 1, sl_total_attendees = 5,
      sl_avg_attendance = 5, sl_occupancy_rate = 36\<rparr>"

definition studio_tuesday :: slot where
  "studio_tuesday =
     \<lparr>sl_day = Some ''MARTES'', sl_time = ''18:30'', sl_class_name = ''Clase'', sl_subtitle = '''',
      sl_max_capacity = 14, sl_total_classes = 1, sl_total_attendees = 1,
      sl_avg_attendance = 1, sl_occupancy_rate = 7\<rparr>"

definition studio_schedule :: "(string \<times> slot list) list" where
  "studio_schedule =
     [(''LUNES'', [studio_monday]), (''MARTES'', [studio_tuesday]), (MIERCOLES, []),
      (''JUEVES'', []), (''VIERNES'', []), (SABADO, [])]"

definition studio_comparison :: credits_comparison where
  "studio_comparison =
     \<lparr>cc_period1 = \<lparr>ps_credits_purchased = 0, ps_credits_used = 6, ps_unique_buyers = 0,
                    ps_active_clients = 4\<rparr>,
      cc_period2 = \<lparr>ps_credits_purchased = 0, ps_credits_used = 0, ps_unique_buyers = 0,
                    ps_active_clients = 0\<rparr>,
      cc_recurring_clients = 0,
      cc_recurring_percentage = 0\<rparr>"















text \<open>One user with a booking on day 90 of the epoch, and two purchasers.\<close>

definition one_booking :: "booking list" where
  "one_booking = [mk_booking ''ana'' (Some (90 * MS_DAY)) ''09:00'' (Some 1)]"

definition two_buyers :: "credit_batch list" where
  "two_buyers =
     [mk_batch ''ana'' None (Some 10) (80 * MS_DAY), mk_batch ''bea'' None (Some 10) (35 * MS_DAY)]"

text \<open>The amount a batch adds to the revenues: the price of its package, 0 where missing.\<close>

definition amount_of :: "package list \<Rightarrow> credit_batch \<Rightarrow> rat" where
  "amount_of packages batch =
     price_or_0 (get_package (packageMap_of packages) (c_package_id batch))"

text \<open>
  What holds of the revenues while the batches are added, as long as the amounts are
  integers whose absolute values add up to \<open>c\<close>: the buckets add up to the total, and all
  are integers of absolute value at most \<open>c\<close>.
\<close>

definition exact_sums :: "rat \<Rightarrow> ('k \<times> 'b) list \<Rightarrow> ('b \<Rightarrow> rat) \<Rightarrow> rat \<Rightarrow> bool" where
  "exact_sums c buckets amt whole \<longleftrightarrow>
     sum_list (map (\<lambda>e. amt (snd e)) buckets) = whole \<and> whole \<in> \<int> \<and> \<bar>whole\<bar> \<le> c \<and>
     (\<forall>e \<in> set buckets. amt (snd e) \<in> \<int> \<and> \<bar>amt (snd e)\<bar> \<le> c)"

text \<open>The counts of the buckets add up to the number of batches seen.\<close>

definition month_counts :: "(int, month_bucket) js_map sales_acc \<Rightarrow> bool" where
  "month_counts acc \<longleftrightarrow>
     sum_list (map (\<lambda>e. mb_count (snd e)) (salesByMonth acc)) = totalPackages acc"

definition range_counts :: "(int \<times> int, range_bucket) js_map sales_acc \<Rightarrow> bool" where
  "range_counts acc \<longleftrightarrow>
     sum_list (map (\<lambda>e. rb_count (snd e)) (salesByMonth acc)) = totalPackages acc"

text \<open>
  Three packages priced 0.1, 0.2 and 0.3, each the double its decimal literal denotes,
  sold once each: the first on 2026-01-05, the others on 2026-02-01 and 2026-02-06. In the
  report expected for them \<open>total_revenue\<close> is the double 0.6000000000000001, the revenue
  of January the double 0.1 and the revenue of February 0.5.
\<close>

definition decimal_packages :: "package list" where
  "decimal_packages =
     [\<lparr>k_id = ''a'', k_title = Some ''A'', k_price = Some (fl (1 / 10)), k_classes_count = Some 1\<rparr>,
      \<lparr>k_id = ''b'', k_title = Some ''B'', k_price = Some (fl (2 / 10)), k_classes_count = Some 2\<rparr>,
      \<lparr>k_id = ''c'', k_title = Some ''C'', k_price = Some (fl (3 / 10)), k_classes_count = Some 3\<rparr>]"

definition decimal_batches :: "credit_batch list" where
  "decimal_batches =
     [mk_batch ''ana'' (Some ''a'') (Some 1) (20458 * MS_DAY),
      mk_batch ''bea'' (Some ''b'') (Some 2) (20485 * MS_DAY),
      mk_batch ''cam'' (Some ''c'') (Some 3) (20490 * MS_DAY)]"

definition decimal_by_month :: "month_bucket sales_report" where
  "decimal_by_month =
     \<lparr>sr_period = Year 2026, sr_total_packages = 3,
      sr_total_revenue = 1351079888211149 / 2251799813685248,
      sr_by_month =
        map (\<lambda>(m, c, r, k). \<lparr>mb_month = m, mb_count = c, mb_revenue = r, mb_credits = k\<rparr>)
          [(''Enero'', 1, 3602879701896397 / 36028797018963968, 1), (''Febrero'', 2, 1 / 2, 5),
           (''Marzo'', 0, 0, 0), (''Abril'', 0, 0, 0), (''Mayo'', 0, 0, 0), (''Junio'', 0, 0, 0),
           (''Julio'', 0, 0, 0), (''Agosto'', 0, 0, 0), (''Septiembre'', 0, 0, 0),
           (''Octubre'', 0, 0, 0), (''Noviembre'', 0, 0, 0), (''Diciembre'', 0, 0, 0)],
      sr_by_package_type =
        [\<lparr>nt_name = ''A'', nt_count = 1, nt_revenue = 3602879701896397 / 36028797018963968,
          nt_credits = 1, nt_price = 3602879701896397 / 36028797018963968\<rparr>,
         \<lparr>nt_name = ''B'', nt_count = 1, nt_revenue = 3602879701896397 / 18014398509481984,
          nt_credits = 2, nt_price = 3602879701896397 / 18014398509481984\<rparr>,
         \<lparr>nt_name = ''C'', nt_count = 1, nt_revenue = 5404319552844595 / 18014398509481984,
          nt_credits = 3, nt_price = 5404319552844595 / 18014398509481984\<rparr>]\<rparr>"

section \<open>Properties of the containers\<close>

lemma map_set_keys:
  "map fst (map_set k v m) = (if k \<in> fst ` set m then map fst m else map fst m @ [k])"
  by (induction m) force+

lemma map_set_distinct: "distinct (map fst m) \<Longrightarrow> distinct (map fst (map_set k v m))"
  by (simp add: map_set_keys)

lemma map_of_map_set: "map_of (map_set k v m) = (map_of m)(k \<mapsto> v)"
  by (induction m) (auto simp: fun_eq_iff)

section \<open>Dormant clients: the cutoff is strict\<close>

lemma note_activity_distinct:
  "distinct (map fst m) \<Longrightarrow> distinct (map fst (note_activity uid d ty m))"
  by (simp add: note_activity_def map_set_distinct split: option.splits)

lemma foldl_note_distinct:
  "distinct (map fst m) \<Longrightarrow>
   distinct (map fst (foldl (\<lambda>m x. note_activity (f x) (g x) ty m) m xs))"
  by (induction xs arbitrary: m) (simp_all add: note_activity_distinct)

lemma userActivity_distinct: "distinct (map fst (userActivity bookings creditBatches))"
  unfolding userActivity_def by (intro foldl_note_distinct) simp

lemma dormant_entry_user [simp]: "dc_user_id (dormant_entry now cache x) = fst x"
  by (simp add: dormant_entry_def Let_def)

lemma dormant_users:
  assumes "getDormantClients now cache days (Inr bookings) (Inr batches) = Inr r"
  shows "dc_user_id ` set (dr_clients r) =
         fst ` set (dormantUserIds now days (userActivity bookings batches))"
proof -
  from assms have "dr_clients r = sort_key (\<lambda>d. - dc_days_inactive d)
      (map (dormant_entry now cache) (dormantUserIds now days (userActivity bookings batches)))"
    by (auto simp: getDormantClients_def Let_def)
  then show ?thesis by (simp add: image_image)
qed

text \<open>A user is listed exactly when the date kept for it in the activity map is before the cutoff.\<close>

lemma dormant_cutoff_by_entry:
  assumes "getDormantClients now cache days (Inr bookings) (Inr batches) = Inr r"
    and "map_get (userActivity bookings batches) u = Some act"
  shows "(a_date act = subtract_days now days \<longrightarrow> u \<notin> dc_user_id ` set (dr_clients r)) \<and>
         (a_date act = subtract_days now days - MS_DAY \<longrightarrow> u \<in> dc_user_id ` set (dr_clients r))"
proof -
  let ?m = "userActivity bookings batches"
  have d: "distinct (map fst ?m)" by (rule userActivity_distinct)
  from assms(2) have mem: "(u, act) \<in> set ?m"
    by (simp add: map_get_def map_of_SomeD)
  have uniq: "\<And>a. (u, a) \<in> set ?m \<Longrightarrow> a = act"
    using d assms(2) by (simp add: map_get_def)
  have ids: "dc_user_id ` set (dr_clients r) = fst ` set (dormantUserIds now days ?m)"
    by (rule dormant_users [OF assms(1)])
  have iff: "u \<in> fst ` set (dormantUserIds now days ?m) \<longleftrightarrow> a_date act < subtract_days now days"
  proof
    assume "u \<in> fst ` set (dormantUserIds now days ?m)"
    then obtain a where "(u, a) \<in> set ?m" "a_date a < subtract_days now days"
      by (auto simp: dormantUserIds_def isBefore_def)
    with uniq show "a_date act < subtract_days now days" by blast
  next
    assume "a_date act < subtract_days now days"
    with mem have "(u, act) \<in> set (dormantUserIds now days ?m)"
      by (simp add: dormantUserIds_def isBefore_def)
    then show "u \<in> fst ` set (dormantUserIds now days ?m)" by force
  qed
  show ?thesis unfolding ids iff by (simp add: MS_DAY_def)
qed

text \<open>The date kept for a user is the latest of the user's dates in both sources.\<close>

lemma note_activity_date:
  "map_option a_date (map_get (note_activity k d ty m) u) =
     (if u = k then Some (case map_option a_date (map_get m u) of None \<Rightarrow> d | Some c \<Rightarrow> max c d)
      else map_option a_date (map_get m u))"
  by (auto simp: note_activity_def map_get_def map_of_map_set isAfter_def split: option.splits)

lemma latest_Nil [simp]: "latest cur [] = cur"
  by (simp add: latest_def split: option.splits)

lemma latest_Cons:
  "latest cur (d # ds) = latest (Some (case cur of None \<Rightarrow> d | Some c \<Rightarrow> max c d)) ds"
  by (cases cur; cases ds) (auto simp: latest_def max.commute max.left_commute Max_insert)

lemma latest_append: "latest cur (xs @ ys) = latest (latest cur xs) ys"
  by (induction xs arbitrary: cur) (simp_all add: latest_Cons)

lemma foldl_note_date:
  "map_option a_date (map_get (foldl (\<lambda>m x. note_activity (f x) (g x) ty m) m xs) u) =
     latest (map_option a_date (map_get m u)) (map g (filter (\<lambda>x. f x = u) xs))"
proof (induction xs arbitrary: m)
  case Nil
  then show ?case by simp
next
  case (Cons x xs)
  show ?case
    by (simp add: Cons.IH note_activity_date latest_Cons)
qed

lemma userActivity_latest:
  "map_option a_date (map_get (userActivity bookings batches) u) =
     latest None (map bookingDate (filter (\<lambda>b. b_user_id b = u) bookings) @
                  map c_created_at (filter (\<lambda>c. c_user_id c = u) batches))"
proof -
  have e: "map_get ([] :: (string, activity) js_map) u = None" by (simp add: map_get_def)
  show ?thesis unfolding userActivity_def
    by (simp add: foldl_note_date latest_append e)
qed

text \<open>
  Claim C5. In \<^verbatim>\<open>getDormantClients\<close>, a user whose latest activity over the bookings and
  credit batches read is exactly \<open>now - daysInactive\<close> days is not in the list of dormant
  clients, and a user whose latest activity is one day before that cutoff is in it.
\<close>

theorem dormant_strict_cutoff:
  assumes "getDormantClients now cache days (Inr bookings) (Inr batches) = Inr r"
    and "activity_dates bookings batches u \<noteq> []"
  shows "(Max (set (activity_dates bookings batches u)) = subtract_days now days
            \<longrightarrow> u \<notin> dc_user_id ` set (dr_clients r)) \<and>
         (Max (set (activity_dates bookings batches u)) = subtract_days now days - MS_DAY
            \<longrightarrow> u \<in> dc_user_id ` set (dr_clients r))"
proof -
  have "map_option a_date (map_get (userActivity bookings batches) u) =
        Some (Max (set (activity_dates bookings batches u)))"
    using assms(2) by (simp add: userActivity_latest activity_dates_def latest_def)
  then obtain act where a: "map_get (userActivity bookings batches) u = Some act"
    and d: "a_date act = Max (set (activity_dates bookings batches u))"
    by auto
  show ?thesis using dormant_cutoff_by_entry [OF assms(1) a] d by simp
qed

theorem dormant_strict_cutoff_witness:
  "\<exists>r. getDormantClients (100 * MS_DAY) None 30
          (Inr [mk_booking ''ana'' (Some (70 * MS_DAY)) ''09:00'' None])
          (Inr [mk_batch ''bea'' None None (69 * MS_DAY)]) = Inr r \<and>
        ''ana'' \<notin> dc_user_id ` set (dr_clients r) \<and>
        ''bea'' \<in> dc_user_id ` set (dr_clients r)"
proof -
  let ?bs = "[mk_booking ''ana'' (Some (70 * MS_DAY)) ''09:00'' None]"
  let ?cs = "[mk_batch ''bea'' None None (69 * MS_DAY)]"
  obtain r where r: "getDormantClients (100 * MS_DAY) None 30 (Inr ?bs) (Inr ?cs) = Inr r"
    by (simp add: getDormantClients_def)
  have a: "activity_dates ?bs ?cs ''ana'' \<noteq> []" "activity_dates ?bs ?cs ''bea'' \<noteq> []"
    by (simp_all add: activity_dates_def mk_booking_def mk_batch_def)
  have m1: "Max (set (activity_dates ?bs ?cs ''ana'')) = subtract_days (100 * MS_DAY) 30"
    by (simp add: activity_dates_def mk_booking_def mk_batch_def bookingDate_def subtract_days_def)
  have m2: "Max (set (activity_dates ?bs ?cs ''bea'')) = subtract_days (100 * MS_DAY) 30 - MS_DAY"
    by (simp add: activity_dates_def mk_booking_def mk_batch_def bookingDate_def subtract_days_def)
  have n1: "''ana'' \<notin> dc_user_id ` set (dr_clients r)"
    by (rule dormant_strict_cutoff [OF r a(1), THEN conjunct1, rule_format, OF m1])
  have n2: "''bea'' \<in> dc_user_id ` set (dr_clients r)"
    by (rule dormant_strict_cutoff [OF r a(2), THEN conjunct2, rule_format, OF m2])
  from r n1 n2 show ?thesis by (intro exI [of _ r] conjI)
qed

section \<open>Dormant clients: the pages partition the list\<close>

lemma slice_page:
  assumes "1 \<le> pageSize"
  shows "js_slice xs (int k * pageSize) (int k * pageSize + pageSize) =
         take (nat pageSize) (drop (k * nat pageSize) xs)"
proof -
  define s where "s = int k * pageSize"
  have "0 \<le> s" unfolding s_def using assms by (intro mult_nonneg_nonneg) simp_all
  then have k0: "\<not> s < 0" "\<not> s + pageSize < 0" using assms by linarith+
  have n: "nat s = k * nat pageSize"
    using assms by (simp add: s_def nat_mult_distrib)
  have unfolded: "js_slice xs s (s + pageSize) =
      take (nat (min (s + pageSize) (int (length xs)) - min s (int (length xs))))
        (drop (nat (min s (int (length xs)))) xs)"
    using k0 by (simp add: js_slice_def Let_def)
  consider (inside) "s + pageSize \<le> int (length xs)"
    | (last) "s \<le> int (length xs)" "int (length xs) < s + pageSize"
    | (beyond) "int (length xs) < s"
    by linarith
  then have "js_slice xs s (s + pageSize) = take (nat pageSize) (drop (nat s) xs)"
  proof cases
    case inside
    then have "min (s + pageSize) (int (length xs)) = s + pageSize" "min s (int (length xs)) = s"
      using assms by simp_all
    then show ?thesis by (simp add: unfolded)
  next
    case last
    then have m: "min (s + pageSize) (int (length xs)) = int (length xs)"
      "min s (int (length xs)) = s"
      by simp_all
    have "length (drop (nat s) xs) \<le> nat (int (length xs) - s)" using last k0 by simp
    moreover have "length (drop (nat s) xs) \<le> nat pageSize" using last k0 by simp
    ultimately show ?thesis by (simp add: unfolded m)
  next
    case beyond
    then have m: "min (s + pageSize) (int (length xs)) = int (length xs)"
      "min s (int (length xs)) = int (length xs)"
      using assms by simp_all
    have "length xs \<le> nat s" using beyond by simp
    then show ?thesis by (simp add: unfolded m)
  qed
  with n show ?thesis unfolding s_def by simp
qed

lemma concat_pages:
  "concat (map (\<lambda>k. take n (drop (k * n) xs)) [0..<m]) = take (m * n) xs"
proof (induction m)
  case 0
  then show ?case by simp
next
  case (Suc m)
  have "Suc m * n = m * n + n" by simp
  then have "take (Suc m * n) xs = take (m * n) xs @ take n (drop (m * n) xs)"
    by (simp only: take_add)
  with Suc show ?case by simp
qed

lemma pages_shift: "map f [1..<Suc m] = map (\<lambda>k. f (Suc k)) [0..<m]"
  by (induction m) simp_all

lemma ceil_covers:
  assumes "1 \<le> (p::int)"
  shows "int n \<le> int (nat (Math_ceil (of_nat n / of_int p))) * p"
proof -
  have "(of_nat n :: rat) / of_int p \<le> of_int (Math_ceil (of_nat n / of_int p))"
    by (simp add: Math_ceil_def)
  then have "(of_nat n :: rat) \<le> of_int (Math_ceil (of_nat n / of_int p)) * of_int p"
    using assms by (simp add: pos_divide_le_eq)
  then have "int n \<le> Math_ceil (of_nat n / of_int p) * p"
    by (metis of_int_le_iff of_int_mult of_int_of_nat_eq)
  moreover have "(0::rat) \<le> of_nat n / of_int p" using assms by simp
  then have "0 \<le> Math_ceil (of_nat n / of_int p)"
    unfolding Math_ceil_def by linarith
  ultimately show ?thesis by simp
qed

text \<open>
  Claim C6. For every page size of at least 1, the client lists of the pages 1 to
  \<open>totalPages\<close> of \<^verbatim>\<open>getDormantClientsPaginated\<close>, one after the other, are the client list
  of \<^verbatim>\<open>getDormantClients\<close> on the same data: same order, nothing twice, nothing left out.
  Every page reports \<open>totalPages\<close> as the total divided by the page size, rounded up.
\<close>

theorem pagination_concat:
  assumes "1 \<le> pageSize"
    and "getDormantClients now cache days bookingsR batchesR = Inr r"
  shows "concat (map (\<lambda>p. page_clients
                    (getDormantClientsPaginated now cache days (int p) pageSize bookingsR batchesR))
           [1..<Suc (nat (Math_ceil (of_nat (dr_total r) / of_int pageSize)))]) = dr_clients r
         \<and> (\<forall>p. \<exists>pg. getDormantClientsPaginated now cache days p pageSize bookingsR batchesR = Inr pg
                \<and> pg_totalPages (dp_pagination pg)
                    = Some (Math_ceil (of_nat (dr_total r) / of_int pageSize)))"
proof -
  let ?T = "nat (Math_ceil (of_nat (dr_total r) / of_int pageSize))"
  have tot: "dr_total r = length (dr_clients r)"
    using assms(2)
    by (auto simp: getDormantClients_def Let_def split: sum.splits)
  have page: "page_clients (getDormantClientsPaginated now cache days (int (Suc k)) pageSize
                  bookingsR batchesR)
      = take (nat pageSize) (drop (k * nat pageSize) (dr_clients r))" for k
  proof -
    have "page_clients (getDormantClientsPaginated now cache days (int (Suc k)) pageSize
                  bookingsR batchesR)
      = js_slice (dr_clients r) (int k * pageSize) (int k * pageSize + pageSize)"
      by (simp add: page_clients_def getDormantClientsPaginated_def assms(2) Let_def)
    then show ?thesis by (simp only: slice_page [OF assms(1)])
  qed
  have cover: "length (dr_clients r) \<le> ?T * nat pageSize"
  proof -
    have e: "int (nat pageSize) = pageSize" using assms(1) by simp
    have "int (dr_total r) \<le> int ?T * int (nat pageSize)"
      by (simp only: e ceil_covers [OF assms(1)])
    then have "int (dr_total r) \<le> int (?T * nat pageSize)"
      by (simp only: of_nat_mult)
    then have "dr_total r \<le> ?T * nat pageSize"
      by (simp only: of_nat_le_iff)
    then show ?thesis by (simp only: tot)
  qed
  have "concat (map (\<lambda>p. page_clients
                    (getDormantClientsPaginated now cache days (int p) pageSize bookingsR batchesR))
           [1..<Suc ?T]) = take (?T * nat pageSize) (dr_clients r)"
    by (simp only: pages_shift page concat_pages)
  then have first: "concat (map (\<lambda>p. page_clients
                    (getDormantClientsPaginated now cache days (int p) pageSize bookingsR batchesR))
           [1..<Suc ?T]) = dr_clients r"
    using cover by simp
  have second: "\<forall>p. \<exists>pg. getDormantClientsPaginated now cache days p pageSize bookingsR batchesR
                  = Inr pg
                \<and> pg_totalPages (dp_pagination pg)
                    = Some (Math_ceil (of_nat (dr_total r) / of_int pageSize))"
    using assms(1) by (simp add: getDormantClientsPaginated_def assms(2) Let_def ceil_ratio_def)
  from first second show ?thesis by blast
qed

theorem pagination_concat_witness:
  "concat (map (\<lambda>p. page_clients (getDormantClientsPaginated (100 * MS_DAY) None 30 (int p) 2
              (Inr [mk_booking ''ana'' (Some (10 * MS_DAY)) ''09:00'' None,
                    mk_booking ''bea'' (Some (20 * MS_DAY)) ''09:00'' None])
              (Inr [mk_batch ''cam'' None None (30 * MS_DAY)]))) [1..<3])
   = map (\<lambda>(u, d, ty, n).
            \<lparr>dc_user_id = u, dc_last_activity = d * MS_DAY, dc_last_activity_type = ty,
             dc_days_inactive = n, dc_full_name = ''Usuario '' @ u, dc_phone = SIN_TELEFONO\<rparr>)
       [(''ana'', 10, ''booking'', 90), (''bea'', 20, ''booking'', 80),
        (''cam'', 30, ''purchase'', 70)]"
proof -
  let ?bs = "Inr [mk_booking ''ana'' (Some (10 * MS_DAY)) ''09:00'' None,
                    mk_booking ''bea'' (Some (20 * MS_DAY)) ''09:00'' None]"
  let ?cs = "Inr [mk_batch ''cam'' None None (30 * MS_DAY)]"
  let ?r = "\<lparr>dr_total = 3, dr_cutoff_days = 30,
             dr_clients = map (\<lambda>(u, d, ty, n).
               \<lparr>dc_user_id = u, dc_last_activity = d * MS_DAY, dc_last_activity_type = ty,
                dc_days_inactive = n, dc_full_name = ''Usuario '' @ u, dc_phone = SIN_TELEFONO\<rparr>)
       [(''ana'', 10, ''booking'', 90), (''bea'', 20, ''booking'', 80),
        (''cam'', 30, ''purchase'', 70)]\<rparr>"
  have r: "getDormantClients (100 * MS_DAY) None 30 ?bs ?cs = Inr ?r"
    by code_simp
  have c: "nat (Math_ceil (of_nat (dr_total ?r) / of_int 2)) = 2"
    unfolding Math_ceil_def by code_simp
  have "(1::int) \<le> 2" by simp
  from pagination_concat [OF this r] show ?thesis
    unfolding c by (simp add: numeral_3_eq_3 numeral_2_eq_2)
qed

section \<open>The profile cache is filled once\<close>

lemma loadProfiles_cache:
  "loadProfiles answer w = (d, w') \<Longrightarrow> profilesCache w' = Some d"
  by (auto simp: loadProfiles_def Let_def split: option.splits sum.splits if_splits)

lemma loadProfiles_hit:
  "profilesCache w = Some d \<Longrightarrow> loadProfiles answer w = (d, w)"
  by (simp add: loadProfiles_def)

lemma loadProfiles_again:
  "profilesCache w = Some d \<Longrightarrow> ((\<lambda>v. snd (loadProfiles answer v)) ^^ n) w = w"
  by (induction n) (simp_all add: loadProfiles_hit)

text \<open>
  Claim C10. After a first call of \<^verbatim>\<open>loadProfiles\<close>, every later call, whatever the store
  would answer and however many calls came before it, returns the directory of the first
  call and leaves the state as it is, the count of reads included. When the cache was not
  yet filled and the first read fails or returns no row, exactly one read is issued, the
  directory is empty, and from then on every profile lookup finds nothing, so that names
  and phones are the fallback values.
\<close>

theorem loadProfiles_idempotent:
  "let (d1, w1) = loadProfiles answer w in
     (\<forall>answer' n. loadProfiles answer' (((\<lambda>v. snd (loadProfiles answer' v)) ^^ n) w1) = (d1, w1)) \<and>
     (profilesCache w = None \<and> (isl (answer (reads w)) \<or> answer (reads w) = Inr []) \<longrightarrow>
        d1 = [] \<and> reads w1 = Suc (reads w) \<and>
        (\<forall>uid. getProfile (profilesCache w1) uid = None \<and>
               formatUserName uid (getProfile (profilesCache w1) uid) = ''Usuario '' @ take 8 uid \<and>
               formatPhone (getProfile (profilesCache w1) uid) = SIN_TELEFONO))"
proof -
  obtain d1 w1 where l: "loadProfiles answer w = (d1, w1)" by (cases "loadProfiles answer w")
  have c: "profilesCache w1 = Some d1" by (rule loadProfiles_cache [OF l])
  have a: "loadProfiles answer' (((\<lambda>v. snd (loadProfiles answer' v)) ^^ n) w1) = (d1, w1)"
    for answer' n
    by (simp only: loadProfiles_again [OF c] loadProfiles_hit [OF c])
  have b: "d1 = [] \<and> reads w1 = Suc (reads w) \<and>
        (\<forall>uid. getProfile (profilesCache w1) uid = None \<and>
               formatUserName uid (getProfile (profilesCache w1) uid) = ''Usuario '' @ take 8 uid \<and>
               formatPhone (getProfile (profilesCache w1) uid) = SIN_TELEFONO)"
    if "profilesCache w = None" "isl (answer (reads w)) \<or> answer (reads w) = Inr []"
  proof -
    from that l have "d1 = []" "reads w1 = Suc (reads w)"
      by (auto simp: loadProfiles_def Let_def isl_def split: sum.splits)
    with c show ?thesis
      by (simp add: getProfile_def map_get_def formatUserName_def formatPhone_def)
  qed
  show ?thesis unfolding l Let_def prod.case using a b by blast
qed

theorem loadProfiles_idempotent_witness:
  "loadProfiles (\<lambda>k. Inr [\<lparr>p_id = ''ana'', p_full_name = Some ''Ana'', p_phone = None\<rparr>])
     (snd (loadProfiles (\<lambda>k. Inl (DataStoreError ''permission denied''))
             \<lparr>profilesCache = None, reads = 0\<rparr>))
   = ([], \<lparr>profilesCache = Some [], reads = 1\<rparr>) \<and>
   formatUserName ''ana-0001-0002'' (getProfile (Some []) ''ana-0001-0002'') = ''Usuario ana-0001''"
proof -
  let ?w = "\<lparr>profilesCache = None, reads = 0\<rparr>"
  let ?f = "\<lambda>k::nat. (Inl (DataStoreError ''permission denied'') :: profile response)"
  let ?g = "\<lambda>k::nat. (Inr [\<lparr>p_id = ''ana'', p_full_name = Some ''Ana'', p_phone = None\<rparr>]
                        :: profile response)"
  have l: "loadProfiles ?f ?w = ([], \<lparr>profilesCache = Some [], reads = 1\<rparr>)"
    by (simp add: loadProfiles_def)
  have h: "profilesCache ?w = None \<and> (isl (?f (reads ?w)) \<or> ?f (reads ?w) = Inr [])" by simp
  note t = loadProfiles_idempotent [of ?f ?w, unfolded l Let_def prod.case]
  note t1 = t [THEN conjunct1, THEN spec [of _ ?g], THEN spec [of _ 0]]
  from t1 have "loadProfiles ?g (((\<lambda>v. snd (loadProfiles ?g v)) ^^ 0)
                  \<lparr>profilesCache = Some [], reads = 1\<rparr>)
      = ([], \<lparr>profilesCache = Some [], reads = 1\<rparr>)" .
  then have first: "loadProfiles ?g (snd (loadProfiles ?f ?w))
      = ([], \<lparr>profilesCache = Some [], reads = 1\<rparr>)"
    by (simp add: l)
  note t2 = t [THEN conjunct2, THEN mp, OF h, THEN conjunct2, THEN conjunct2,
      THEN spec [of _ "''ana-0001-0002''"], THEN conjunct2, THEN conjunct1]
  from t2 have "formatUserName ''ana-0001-0002''
      (getProfile (profilesCache \<lparr>profilesCache = Some [], reads = 1\<rparr>) ''ana-0001-0002'')
      = ''Usuario '' @ take 8 ''ana-0001-0002''" .
  then have second: "formatUserName ''ana-0001-0002'' (getProfile (Some []) ''ana-0001-0002'')
      = ''Usuario ana-0001''"
    by simp
  from first second show ?thesis by (rule conjI)
qed

section \<open>Doubles: additions of small integers are exact\<close>

lemma round_even_int [simp]: "round_even (of_int j) = j"
  by (simp add: round_even_def)

lemma pow2_nonpos: "e \<le> 0 \<Longrightarrow> pow2 e = 1 / 2 ^ nat (- e)"
  by (cases "e = 0") (simp_all add: pow2_def)

lemma bitlen_small:
  assumes "0 < a" "a < 2 ^ 53"
  shows "1 \<le> bitlen a \<and> bitlen a \<le> 53"
proof -
  from bitlen_bounds [OF assms(1)] have lo: "2 ^ nat (bitlen a - 1) \<le> a" by simp
  have "bitlen a \<noteq> 0" using assms(1) by (simp add: bitlen_eq_zero_iff)
  with bitlen_nonneg [of a] have one: "1 \<le> bitlen a" by linarith
  have "\<not> 54 \<le> bitlen a"
  proof
    assume "54 \<le> bitlen a"
    then have "53 \<le> nat (bitlen a - 1)" by simp
    then have "(2::int) ^ 53 \<le> 2 ^ nat (bitlen a - 1)" by (rule power_increasing) simp
    with lo assms(2) show False by linarith
  qed
  with one show ?thesis by linarith
qed

lemma fl_int:
  assumes "\<bar>n\<bar> < 2 ^ 53"
  shows "fl (of_int n) = of_int n"
proof (cases "n = 0")
  case True
  then show ?thesis by (simp add: fl_def)
next
  case False
  define a where "a = \<bar>n\<bar>"
  have a: "0 < a" "a < 2 ^ 53" using False assms by (simp_all add: a_def)
  have abs: "\<bar>of_int n :: rat\<bar> = of_int a" by (simp add: a_def)
  have "(1::rat) \<le> of_int a" using a(1) by simp
  then have il: "ilog2 (of_int a) = bitlen a - 1" by (simp add: ilog2_def)
  define e where "e = bitlen a - 53"
  from bitlen_small [OF a] have e: "e \<le> 0" "- 1074 \<le> e" by (simp_all add: e_def)
  then have m: "max (ilog2 (of_int a) - 52) (- 1074) = e" by (simp add: il e_def)
  define k where "k = nat (- e)"
  have p: "pow2 e = 1 / 2 ^ k" unfolding k_def by (rule pow2_nonpos [OF e(1)])
  have "(of_int a :: rat) / pow2 e = of_int (a * 2 ^ k)" by (simp add: p)
  then have r: "round_even (of_int a / pow2 e) = a * 2 ^ k" by (simp only: round_even_int)
  have nz: "(of_int n :: rat) \<noteq> 0" using False by simp
  have "fl (of_int n) = sgn (of_int n) * of_int (a * 2 ^ k) * pow2 e"
    unfolding fl_def Let_def abs m r using nz by (simp only: if_False)
  also have "\<dots> = sgn (of_int n) * (of_int a * 2 ^ k * (1 / 2 ^ k))"
    by (simp only: p of_int_mult of_int_power of_int_numeral mult.assoc)
  also have "\<dots> = sgn (of_int n) * of_int a" by simp
  also have "\<dots> = of_int n" unfolding a_def by (simp only: of_int_abs sgn_mult_abs)
  finally show ?thesis .
qed

lemma dadd_exact:
  assumes "a \<in> \<int>" "b \<in> \<int>" "\<bar>a + b\<bar> < 2 ^ 53"
  shows "dadd a b = a + b"
proof -
  from assms(1,2) obtain i j where ij: "a = of_int i" "b = of_int j" by (auto elim!: Ints_cases)
  have "(of_int \<bar>i + j\<bar> :: rat) < of_int (2 ^ 53)"
    using assms(3) unfolding ij by (simp only: of_int_abs of_int_add of_int_power of_int_numeral)
  then have "\<bar>i + j\<bar> < 2 ^ 53" by (simp only: of_int_less_iff)
  then have "fl (of_int (i + j)) = of_int (i + j)" by (rule fl_int)
  then show ?thesis by (simp add: dadd_def ij)
qed

section \<open>Sales reports: buckets and totals\<close>

lemma sum_map_set:
  fixes f :: "'b \<Rightarrow> 'a::ab_group_add"
  shows "sum_list (map (\<lambda>e. f (snd e)) (map_set k v m)) =
   sum_list (map (\<lambda>e. f (snd e)) m) + f v - (case map_of m k of None \<Rightarrow> 0 | Some b \<Rightarrow> f b)"
  by (induction m) (auto simp: algebra_simps)

lemma sum_insort_key:
  fixes f :: "'b \<Rightarrow> 'a::comm_monoid_add"
  shows "sum_list (map f (insort_key g x xs)) = f x + sum_list (map f xs)"
  by (induction xs) (auto simp: ac_simps)

lemma sum_sort_key:
  fixes f :: "'b \<Rightarrow> 'a::comm_monoid_add"
  shows "sum_list (map f (sort_key g xs)) = sum_list (map f xs)"
  by (induction xs) (simp_all add: sum_insort_key)

lemma values_map_set: "snd ` set (map_set k v m) \<subseteq> insert v (snd ` set m)"
  by (induction m) (force split: if_splits)+

lemma exact_sums_step:
  assumes inv0: "exact_sums c m amt whole"
    and a: "a \<in> \<int>" "c + \<bar>a\<bar> < 2 ^ 53"
    and v: "amt v = dadd (case map_of m k of None \<Rightarrow> 0 | Some b \<Rightarrow> amt b) a"
  shows "exact_sums (c + \<bar>a\<bar>) (map_set k v m) amt (dadd whole a)"
proof -
  define old where "old = (case map_of m k of None \<Rightarrow> 0 | Some b \<Rightarrow> amt b)"
  from inv0 have tot: "sum_list (map (\<lambda>e. amt (snd e)) m) = whole" "whole \<in> \<int>" "\<bar>whole\<bar> \<le> c"
    and each: "\<And>e. e \<in> set m \<Longrightarrow> amt (snd e) \<in> \<int> \<and> \<bar>amt (snd e)\<bar> \<le> c"
    by (simp_all add: exact_sums_def)
  have c0: "0 \<le> c" using tot(3) by linarith
  have "old \<in> \<int> \<and> \<bar>old\<bar> \<le> c"
  proof (cases "map_of m k")
    case None
    then show ?thesis using c0 by (simp add: old_def)
  next
    case (Some b)
    then have "(k, b) \<in> set m" by (rule map_of_SomeD)
    from each [OF this] Some show ?thesis by (simp add: old_def)
  qed
  then have old: "old \<in> \<int>" "\<bar>old\<bar> \<le> c" by simp_all
  have "\<bar>old + a\<bar> < 2 ^ 53" using old(2) a(2) by linarith
  with old(1) a(1) have "dadd old a = old + a" by (rule dadd_exact)
  with v have rv: "amt v = old + a" by (simp add: old_def)
  have "\<bar>whole + a\<bar> < 2 ^ 53" using tot(3) a(2) by linarith
  with tot(2) a(1) have ta: "dadd whole a = whole + a" by (rule dadd_exact)
  have s: "sum_list (map (\<lambda>e. amt (snd e)) (map_set k v m)) = whole + a"
    by (simp add: sum_map_set tot(1) rv old_def)
  have e: "amt (snd e) \<in> \<int> \<and> \<bar>amt (snd e)\<bar> \<le> c + \<bar>a\<bar>" if "e \<in> set (map_set k v m)" for e
  proof -
    from that values_map_set [of k v m] have "snd e = v \<or> snd e \<in> snd ` set m" by auto
    then show ?thesis
    proof
      assume "snd e = v"
      then show ?thesis using rv old a(1) by (auto simp: Ints_add)
    next
      assume "snd e \<in> snd ` set m"
      then obtain e' where "e' \<in> set m" "snd e = snd e'" by auto
      with each [of e'] show ?thesis by auto
    qed
  qed
  have t: "whole + a \<in> \<int>" "\<bar>whole + a\<bar> \<le> c + \<bar>a\<bar>"
    using tot(2,3) a(1) by (auto simp: Ints_add)
  show ?thesis unfolding exact_sums_def ta using s e t by blast
qed

lemma month_step_exact:
  assumes "exact_sums c (salesByMonth acc) mb_revenue (totalRevenue acc)"
    and "price_or_0 (get_package pm (c_package_id batch)) \<in> \<int>"
    and "c + \<bar>price_or_0 (get_package pm (c_package_id batch))\<bar> < 2 ^ 53"
    and "month_step pm acc batch = Inr acc'"
  shows "exact_sums (c + \<bar>price_or_0 (get_package pm (c_package_id batch))\<bar>)
           (salesByMonth acc') mb_revenue (totalRevenue acc')"
proof -
  define a where "a = price_or_0 (get_package pm (c_package_id batch))"
  define k where "k = month_of (c_created_at batch) + 1"
  from assms(4) obtain b where b: "map_of (salesByMonth acc) k = Some b"
    by (auto simp: month_step_def Let_def map_get_def k_def split: option.splits)
  define v where "v = b\<lparr>mb_count := mb_count b + 1, mb_revenue := dadd (mb_revenue b) a,
      mb_credits := mb_credits b + num_or (c_credits_total batch) 0\<rparr>"
  from assms(4) b have acc': "salesByMonth acc' = map_set k v (salesByMonth acc)"
    "totalRevenue acc' = dadd (totalRevenue acc) a"
    by (auto simp: month_step_def Let_def map_get_def k_def v_def a_def)
  have "mb_revenue v = dadd (case map_of (salesByMonth acc) k of None \<Rightarrow> 0 | Some b \<Rightarrow> mb_revenue b) a"
    by (simp add: v_def b)
  with assms(1,2,3) show ?thesis
    unfolding acc' a_def [symmetric] by (intro exact_sums_step)
qed

lemma forEach_month_exact:
  assumes "exact_sums c (salesByMonth acc) mb_revenue (totalRevenue acc)"
    and "\<forall>b \<in> set batches. price_or_0 (get_package pm (c_package_id b)) \<in> \<int>"
    and "c + sum_list (map (\<lambda>b. \<bar>price_or_0 (get_package pm (c_package_id b))\<bar>) batches) < 2 ^ 53"
    and "forEach (month_step pm) acc batches = Inr acc'"
  shows "sum_list (map (\<lambda>e. mb_revenue (snd e)) (salesByMonth acc')) = totalRevenue acc'"
  using assms
proof (induction batches arbitrary: acc c)
  case Nil
  then show ?case by (simp add: exact_sums_def)
next
  case (Cons x xs)
  let ?a = "price_or_0 (get_package pm (c_package_id x))"
  from Cons.prems(4) obtain acc1 where s: "month_step pm acc x = Inr acc1"
    and f: "forEach (month_step pm) acc1 xs = Inr acc'"
    by (auto split: sum.splits)
  have nn: "0 \<le> sum_list (map (\<lambda>b. \<bar>price_or_0 (get_package pm (c_package_id b))\<bar>) xs)"
    by (rule sum_list_nonneg) auto
  have "exact_sums (c + \<bar>?a\<bar>) (salesByMonth acc1) mb_revenue (totalRevenue acc1)"
    using Cons.prems(1) _ _ s
  proof (rule month_step_exact)
    show "?a \<in> \<int>" using Cons.prems(2) by simp
    show "c + \<bar>?a\<bar> < 2 ^ 53" using Cons.prems(3) nn by simp
  qed
  moreover have "\<forall>b \<in> set xs. price_or_0 (get_package pm (c_package_id b)) \<in> \<int>"
    using Cons.prems(2) by simp
  moreover have "c + \<bar>?a\<bar> + sum_list (map (\<lambda>b. \<bar>price_or_0 (get_package pm (c_package_id b))\<bar>) xs) < 2 ^ 53"
    using Cons.prems(3) by (simp add: add.assoc)
  ultimately show ?case using f by (rule Cons.IH)
qed

lemma range_step_exact:
  assumes "exact_sums c (salesByMonth acc) rb_revenue (totalRevenue acc)"
    and "price_or_0 (get_package pm (c_package_id batch)) \<in> \<int>"
    and "c + \<bar>price_or_0 (get_package pm (c_package_id batch))\<bar> < 2 ^ 53"
  shows "exact_sums (c + \<bar>price_or_0 (get_package pm (c_package_id batch))\<bar>)
           (salesByMonth (range_step pm acc batch)) rb_revenue
           (totalRevenue (range_step pm acc batch))"
proof -
  define a where "a = price_or_0 (get_package pm (c_package_id batch))"
  define k where "k = (year_of (c_created_at batch), month_of (c_created_at batch))"
  define b where "b = (case map_of (salesByMonth acc) k of
      None \<Rightarrow> \<lparr>rb_month = at_index months (month_of (c_created_at batch)),
               rb_year = year_of (c_created_at batch),
               rb_count = 0, rb_revenue = 0, rb_credits = 0\<rparr>
    | Some b \<Rightarrow> b)"
  define v where "v = b\<lparr>rb_count := rb_count b + 1, rb_revenue := dadd (rb_revenue b) a,
      rb_credits := rb_credits b + num_or (c_credits_total batch) 0\<rparr>"
  have acc': "salesByMonth (range_step pm acc batch) = map_set k v (salesByMonth acc)"
    "totalRevenue (range_step pm acc batch) = dadd (totalRevenue acc) a"
    by (simp_all add: range_step_def Let_def map_get_def k_def v_def a_def b_def)
  have "rb_revenue v = dadd (case map_of (salesByMonth acc) k of None \<Rightarrow> 0 | Some b \<Rightarrow> rb_revenue b) a"
    by (simp add: v_def b_def split: option.splits)
  with assms show ?thesis
    unfolding acc' a_def [symmetric] by (intro exact_sums_step)
qed

lemma foldl_range_exact:
  assumes "exact_sums c (salesByMonth acc) rb_revenue (totalRevenue acc)"
    and "\<forall>b \<in> set batches. price_or_0 (get_package pm (c_package_id b)) \<in> \<int>"
    and "c + sum_list (map (\<lambda>b. \<bar>price_or_0 (get_package pm (c_package_id b))\<bar>) batches) < 2 ^ 53"
  shows "sum_list (map (\<lambda>e. rb_revenue (snd e)) (salesByMonth (foldl (range_step pm) acc batches)))
         = totalRevenue (foldl (range_step pm) acc batches)"
  using assms
proof (induction batches arbitrary: acc c)
  case Nil
  then show ?case by (simp add: exact_sums_def)
next
  case (Cons x xs)
  let ?a = "price_or_0 (get_package pm (c_package_id x))"
  have nn: "0 \<le> sum_list (map (\<lambda>b. \<bar>price_or_0 (get_package pm (c_package_id b))\<bar>) xs)"
    by (rule sum_list_nonneg) auto
  have "exact_sums (c + \<bar>?a\<bar>) (salesByMonth (range_step pm acc x)) rb_revenue
      (totalRevenue (range_step pm acc x))"
    using Cons.prems(1)
  proof (rule range_step_exact)
    show "?a \<in> \<int>" using Cons.prems(2) by simp
    show "c + \<bar>?a\<bar> < 2 ^ 53" using Cons.prems(3) nn by simp
  qed
  moreover have "\<forall>b \<in> set xs. price_or_0 (get_package pm (c_package_id b)) \<in> \<int>"
    using Cons.prems(2) by simp
  moreover have "c + \<bar>?a\<bar> + sum_list (map (\<lambda>b. \<bar>price_or_0 (get_package pm (c_package_id b))\<bar>) xs) < 2 ^ 53"
    using Cons.prems(3) by (simp add: add.assoc)
  ultimately show ?case unfolding foldl_Cons by (rule Cons.IH)
qed

lemma month_step_counts:
  "month_counts acc \<Longrightarrow> month_step pm acc batch = Inr acc' \<Longrightarrow> month_counts acc'"
  by (auto simp: month_counts_def month_step_def Let_def map_get_def sum_map_set split: option.splits)

lemma forEach_month_counts:
  "month_counts acc \<Longrightarrow> forEach (month_step pm) acc batches = Inr acc' \<Longrightarrow> month_counts acc'"
proof (induction batches arbitrary: acc)
  case Nil
  then show ?case by simp
next
  case (Cons b bs)
  then show ?case
    by (auto split: sum.splits dest: month_step_counts)
qed

lemma range_step_counts: "range_counts acc \<Longrightarrow> range_counts (range_step pm acc batch)"
  by (auto simp: range_counts_def range_step_def Let_def map_get_def sum_map_set split: option.splits)

lemma foldl_range_counts: "range_counts acc \<Longrightarrow> range_counts (foldl (range_step pm) acc batches)"
  by (induction batches arbitrary: acc) (simp_all add: range_step_counts)

lemma initial_months_zero:
  "exact_sums 0 initial_months mb_revenue 0"
  "sum_list (map (\<lambda>e. mb_count (snd e)) initial_months) = 0"
  by (simp_all add: exact_sums_def initial_months_def months_def enumerate_eq_zip upt_rec)

text \<open>
  Claim C3, as amended. Whenever \<^verbatim>\<open>getPackageSalesByMonth\<close> or
  \<^verbatim>\<open>getPackageSalesByDateRange\<close> returns a report, the counts of its \<open>by_month\<close> buckets
  add up to \<open>total_packages\<close>. Their revenues add up to \<open>total_revenue\<close> when every amount
  added, the price of the package of a batch or 0 where it has none, is an integer and the
  absolute amounts add up to less than \<open>2 ^ 53\<close>: then every addition of doubles is exact.
\<close>

theorem sales_sums_consistent:
  "(getPackageSalesByMonth year batchesR packagesR = Inr r \<longrightarrow>
      sum_list (map mb_count (sr_by_month r)) = sr_total_packages r \<and>
      ((\<forall>b \<in> set (rows_of batchesR). amount_of (rows_of packagesR) b \<in> \<int>) \<and>
       sum_list (map (\<lambda>b. \<bar>amount_of (rows_of packagesR) b\<bar>) (rows_of batchesR)) < 2 ^ 53 \<longrightarrow>
         sum_list (map mb_revenue (sr_by_month r)) = sr_total_revenue r)) \<and>
   (getPackageSalesByDateRange startDate endDate batchesR packagesR = Inr r' \<longrightarrow>
      sum_list (map rb_count (sr_by_month r')) = sr_total_packages r' \<and>
      ((\<forall>b \<in> set (rows_of batchesR). amount_of (rows_of packagesR) b \<in> \<int>) \<and>
       sum_list (map (\<lambda>b. \<bar>amount_of (rows_of packagesR) b\<bar>) (rows_of batchesR)) < 2 ^ 53 \<longrightarrow>
         sum_list (map rb_revenue (sr_by_month r')) = sr_total_revenue r'))"
proof (intro conjI impI)
  let ?pm = "packageMap_of (rows_of packagesR)"
  let ?init = "\<lparr>salesByMonth = initial_months, salesByPackageType = [], totalRevenue = 0,
      totalPackages = 0\<rparr>"
  assume a: "getPackageSalesByMonth year batchesR packagesR = Inr r"
  then obtain acc where f: "forEach (month_step ?pm) ?init (rows_of batchesR) = Inr acc"
    and r: "sr_by_month r = map snd (salesByMonth acc)" "sr_total_revenue r = totalRevenue acc"
      "sr_total_packages r = totalPackages acc"
    by (auto simp: getPackageSalesByMonth_def rows_of_def split: sum.splits)
  have "month_counts ?init" by (simp add: month_counts_def initial_months_zero)
  then have "month_counts acc" using f by (rule forEach_month_counts)
  then show "sum_list (map mb_count (sr_by_month r)) = sr_total_packages r"
    by (simp add: r month_counts_def comp_def)
  assume h: "(\<forall>b \<in> set (rows_of batchesR). amount_of (rows_of packagesR) b \<in> \<int>) \<and>
       sum_list (map (\<lambda>b. \<bar>amount_of (rows_of packagesR) b\<bar>) (rows_of batchesR)) < 2 ^ 53"
  have "sum_list (map (\<lambda>e. mb_revenue (snd e)) (salesByMonth acc)) = totalRevenue acc"
  proof (rule forEach_month_exact [where c = 0 and acc = ?init, OF _ _ _ f])
    show "exact_sums 0 (salesByMonth ?init) mb_revenue (totalRevenue ?init)"
      by (simp add: initial_months_zero)
    show "\<forall>b \<in> set (rows_of batchesR). price_or_0 (get_package ?pm (c_package_id b)) \<in> \<int>"
      using h by (simp add: amount_of_def)
    show "0 + sum_list (map (\<lambda>b. \<bar>price_or_0 (get_package ?pm (c_package_id b))\<bar>) (rows_of batchesR)) < 2 ^ 53"
      using h by (simp add: amount_of_def)
  qed
  then show "sum_list (map mb_revenue (sr_by_month r)) = sr_total_revenue r"
    by (simp add: r comp_def)
next
  let ?pm = "packageMap_of (rows_of packagesR)"
  let ?init = "\<lparr>salesByMonth = ([] :: (int \<times> int, range_bucket) js_map), salesByPackageType = [],
      totalRevenue = 0, totalPackages = 0\<rparr>"
  assume a: "getPackageSalesByDateRange startDate endDate batchesR packagesR = Inr r'"
  define acc where "acc = foldl (range_step ?pm) ?init (rows_of batchesR)"
  from a have r: "sr_by_month r' = sort_key (\<lambda>b. (rb_year b, month_index (rb_month b)))
        (map snd (salesByMonth acc))"
      "sr_total_revenue r' = totalRevenue acc" "sr_total_packages r' = totalPackages acc"
    by (auto simp: getPackageSalesByDateRange_def rows_of_def acc_def Let_def split: sum.splits)
  have "range_counts ?init" by (simp add: range_counts_def)
  then have "range_counts acc" unfolding acc_def by (rule foldl_range_counts)
  then show "sum_list (map rb_count (sr_by_month r')) = sr_total_packages r'"
    by (simp add: r range_counts_def comp_def sum_sort_key)
  assume h: "(\<forall>b \<in> set (rows_of batchesR). amount_of (rows_of packagesR) b \<in> \<int>) \<and>
       sum_list (map (\<lambda>b. \<bar>amount_of (rows_of packagesR) b\<bar>) (rows_of batchesR)) < 2 ^ 53"
  have "sum_list (map (\<lambda>e. rb_revenue (snd e)) (salesByMonth acc)) = totalRevenue acc"
    unfolding acc_def
  proof (rule foldl_range_exact [where c = 0])
    show "exact_sums 0 (salesByMonth ?init) rb_revenue (totalRevenue ?init)"
      by (simp add: exact_sums_def)
    show "\<forall>b \<in> set (rows_of batchesR). price_or_0 (get_package ?pm (c_package_id b)) \<in> \<int>"
      using h by (simp add: amount_of_def)
    show "0 + sum_list (map (\<lambda>b. \<bar>price_or_0 (get_package ?pm (c_package_id b))\<bar>) (rows_of batchesR)) < 2 ^ 53"
      using h by (simp add: amount_of_def)
  qed
  then show "sum_list (map rb_revenue (sr_by_month r')) = sr_total_revenue r'"
    by (simp add: r comp_def sum_sort_key)
qed

lemma ten_class_amount: "amount_of [ten_class] (mk_batch u (Some ''1'') n t) = 100"
  by (simp add: amount_of_def packageMap_of_def new_Map_def ten_class_def mk_batch_def
      get_package_def map_get_def price_or_0_def dbl_or_def)

theorem sales_sums_consistent_witness:
  "getPackageSalesByMonth 2026 (Inr january_batches) (Inr [ten_class]) = Inr january_by_month \<and>
   sum_list (map mb_revenue (sr_by_month january_by_month)) = sr_total_revenue january_by_month \<and>
   sum_list (map mb_count (sr_by_month january_by_month)) = sr_total_packages january_by_month \<and>
   getPackageSalesByDateRange (20454 * MS_DAY) (20484 * MS_DAY) (Inr january_batches) (Inr [ten_class])
     = Inr january_by_range \<and>
   sum_list (map rb_revenue (sr_by_month january_by_range)) = sr_total_revenue january_by_range \<and>
   sum_list (map rb_count (sr_by_month january_by_range)) = sr_total_packages january_by_range"
proof -
  have m: "getPackageSalesByMonth 2026 (Inr january_batches) (Inr [ten_class])
      = Inr january_by_month"
    by code_simp
  have g: "getPackageSalesByDateRange (20454 * MS_DAY) (20484 * MS_DAY) (Inr january_batches)
      (Inr [ten_class]) = Inr january_by_range"
    by code_simp
  have h: "(\<forall>b \<in> set (rows_of (Inr january_batches)). amount_of (rows_of (Inr [ten_class])) b \<in> \<int>) \<and>
      sum_list (map (\<lambda>b. \<bar>amount_of (rows_of (Inr [ten_class])) b\<bar>) (rows_of (Inr january_batches)))
        < 2 ^ 53"
    by (simp add: rows_of_def january_batches_def ten_class_amount)
  note byMonth = sales_sums_consistent [THEN conjunct1, THEN mp, OF m]
  note byRange = sales_sums_consistent [THEN conjunct2, THEN mp, OF g]
  from byMonth h have m1: "sum_list (map mb_revenue (sr_by_month january_by_month))
      = sr_total_revenue january_by_month" by blast
  from byRange h have g1: "sum_list (map rb_revenue (sr_by_month january_by_range))
      = sr_total_revenue january_by_range" by blast
  from m m1 byMonth g g1 byRange show ?thesis by blast
qed

text \<open>
  Claim C3 as stated fails for the revenues. With the prices 0.1, 0.2 and 0.3, the first
  sold in January and the other two in February, \<open>total_revenue\<close> is
  \<open>(0.1 + 0.2) + 0.3\<close>, the double 0.6000000000000001, while the buckets hold 0.1 and
  \<open>0.2 + 0.3\<close>, the double 0.5.
\<close>

theorem decimal_prices_counterexample:
  "getPackageSalesByMonth 2026 (Inr decimal_batches) (Inr decimal_packages) = Inr decimal_by_month \<and>
   sr_total_revenue decimal_by_month = 1351079888211149 / 2251799813685248 \<and>
   sum_list (map mb_revenue (sr_by_month decimal_by_month))
     = 3602879701896397 / 36028797018963968 + 1 / 2 \<and>
   sum_list (map mb_revenue (sr_by_month decimal_by_month)) \<noteq> sr_total_revenue decimal_by_month \<and>
   dadd (3602879701896397 / 36028797018963968) (1 / 2) \<noteq> sr_total_revenue decimal_by_month"
  by code_simp

section \<open>Top buyers: dense ranks, descending amounts\<close>

lemma slice_prefix: "\<exists>k. js_slice xs 0 fin = take k xs"
  by (auto simp: js_slice_def Let_def)

lemma ranks_enumerate:
  "map (\<lambda>ib. int (fst ib) + 1) (enumerate 0 xs) = map int [1..<Suc (length xs)]"
proof -
  have "map (\<lambda>ib. int (fst ib) + 1) (enumerate 0 xs) = map (\<lambda>i. int i + 1) (map fst (enumerate 0 xs))"
    by (simp only: map_map comp_def)
  also have "\<dots> = map (\<lambda>i. int i + 1) [0..<length xs]" by simp
  also have "\<dots> = map int (map Suc [0..<length xs])" by (simp add: comp_def)
  also have "\<dots> = map int [1..<Suc (length xs)]" by (simp only: map_Suc_upt One_nat_def)
  finally show ?thesis .
qed

lemma ranked_list:
  "length (map (ranked cache) (enumerate 0 bs)) = length bs \<and>
   map by_rank (map (ranked cache) (enumerate 0 bs)) = map int [1..<Suc (length bs)] \<and>
   map by_total_spent (map (ranked cache) (enumerate 0 bs)) = map us_total_spent bs"
proof -
  have "by_total_spent (ranked cache ib) = us_total_spent (snd ib)"
    "by_rank (ranked cache ib) = int (fst ib) + 1" for ib
    by (simp_all add: ranked_def Let_def)
  then have "map by_total_spent (map (ranked cache) (enumerate 0 bs)) = map us_total_spent (map snd (enumerate 0 bs))"
    "map by_rank (map (ranked cache) (enumerate 0 bs)) = map (\<lambda>ib. int (fst ib) + 1) (enumerate 0 bs)"
    by (simp_all only: map_map comp_def)
  then show ?thesis by (simp add: ranks_enumerate)
qed

lemma descending_sort_key:
  "sorted_wrt (\<ge>) (map f (sort_key (\<lambda>s. - f s) xs :: 'a list))" for f :: "'a \<Rightarrow> rat"
proof -
  have "sorted (map (\<lambda>s. - f s) (sort_key (\<lambda>s. - f s) xs))" by (rule sorted_sort_key)
  then show ?thesis by (simp add: sorted_wrt_map)
qed

lemma top_descending:
  "sorted_wrt (\<ge>) (map us_total_spent (js_slice (sort_key (\<lambda>s. - us_total_spent s) xs) 0 limit))"
proof -
  obtain k where k: "js_slice (sort_key (\<lambda>s. - us_total_spent s) xs) 0 limit
      = take k (sort_key (\<lambda>s. - us_total_spent s) xs)"
    using slice_prefix by blast
  have "sorted_wrt (\<ge>) (take k (map us_total_spent (sort_key (\<lambda>s. - us_total_spent s) xs)))"
    by (rule sorted_wrt_take [OF descending_sort_key])
  then show ?thesis by (simp add: k take_map)
qed

text \<open>
  Claim C4. Whenever \<^verbatim>\<open>getTopBuyers\<close> or \<^verbatim>\<open>getTopBuyersByDateRange\<close> returns a list, on any
  credit batches, packages and limit, the ranks of its entries are exactly 1 to the length
  of the list, in order, and \<open>total_spent\<close> never increases from an entry to the next.
\<close>

theorem top_buyers_ranking:
  "(getTopBuyers cache year limit batchesR packagesR = Inr result \<longrightarrow> dense_descending result) \<and>
   (getTopBuyersByDateRange cache startDate endDate limit batchesR packagesR = Inr result'
      \<longrightarrow> dense_descending result')"
proof (intro conjI impI)
  assume "getTopBuyers cache year limit batchesR packagesR = Inr result"
  then obtain stats where "result = map (ranked cache) (enumerate 0
      (js_slice (sort_key (\<lambda>s. - us_total_spent s) stats) 0 limit))"
    by (auto simp: getTopBuyers_def Let_def split: sum.splits)
  then show "dense_descending result"
    unfolding dense_descending_def by (simp only: ranked_list top_descending simp_thms)
next
  assume "getTopBuyersByDateRange cache startDate endDate limit batchesR packagesR = Inr result'"
  then obtain stats where "result' = map (ranked cache) (enumerate 0
      (js_slice (sort_key (\<lambda>s. - us_total_spent s) stats) 0 limit))"
    by (auto simp: getTopBuyersByDateRange_def Let_def split: sum.splits)
  then show "dense_descending result'"
    unfolding dense_descending_def by (simp only: ranked_list top_descending simp_thms)
qed

theorem top_buyers_ranking_witness:
  "getTopBuyers None 2026 2 (Inr buyer_batches) (Inr [ten_class, fifty_class]) = Inr top_two \<and>
   dense_descending top_two \<and>
   getTopBuyersByDateRange None (20454 * MS_DAY) (20484 * MS_DAY) 1 (Inr buyer_batches)
     (Inr [ten_class, fifty_class]) = Inr (take 1 top_two) \<and>
   dense_descending (take 1 top_two)"
proof -
  have y: "getTopBuyers None 2026 2 (Inr buyer_batches) (Inr [ten_class, fifty_class])
      = Inr top_two"
    by code_simp
  have g: "getTopBuyersByDateRange None (20454 * MS_DAY) (20484 * MS_DAY) 1 (Inr buyer_batches)
     (Inr [ten_class, fifty_class]) = Inr (take 1 top_two)"
    by code_simp
  note byYear = top_buyers_ranking [THEN conjunct1, THEN mp, OF y]
  note byRange = top_buyers_ranking [THEN conjunct2, THEN mp, OF g]
  from y byYear g byRange show ?thesis by (intro conjI)
qed

section \<open>Retention metrics: the conversion rate\<close>

lemma new_Set_fold:
  "distinct s \<Longrightarrow>
   distinct (foldl (\<lambda>s x. if x \<in> set s then s else s @ [x]) s xs) \<and>
   set (foldl (\<lambda>s x. if x \<in> set s then s else s @ [x]) s xs) = set s \<union> set xs"
  by (induction xs arbitrary: s) auto

lemma new_Set_distinct [simp]: "distinct (new_Set xs)"
  and new_Set_set [simp]: "set (new_Set xs) = set xs"
  using new_Set_fold [of "[]" xs] by (simp_all add: new_Set_def)

text \<open>
  Claim C2. The rates of \<^verbatim>\<open>getRetentionMetrics\<close> are meant to lie between 0 and 100: the
  report renderer words \<open>conversion_rate\<close> as the number of buyers among 100 users. The code
  divides the number of distinct purchasers by the number of distinct users with a booking,
  two sets that nothing relates. With one user who booked and two purchasers it returns the
  conversion rate \<^verbatim>\<open>"200.0"\<close>.
\<close>

theorem conversion_rate_exceeds_100:
  "getRetentionMetrics (100 * MS_DAY) None
     (Inr one_booking) (Inr one_booking) (Inr two_buyers) (Inr two_buyers)
   = Inr \<lparr>rt_total_registered_users = 1, rt_total_unique_users = 1, rt_active_users_30_days = 1,
          rt_total_buyers_ever = 2, rt_buyers_last_30_days = 1, rt_users_with_credits = 2,
          rt_total_credits_pending = 20, rt_retention_rate = Fixed1 1000,
          rt_conversion_rate = Fixed1 2000\<rparr> \<and>
   rate_value (Fixed1 2000) = 200 \<and> \<not> rate_value (Fixed1 2000) \<le> 100"
  by code_simp

section \<open>Credits comparison: recurring clients\<close>





section \<open>Every booking counts with its attendees\<close>

lemma num_or_attendees: "num_or (b_total_attendees b) 1 = attendees_of b"
  by (simp add: num_or_def attendees_of_def)

lemma wsum_map_set:
  fixes f :: "'b \<Rightarrow> int"
  shows "sum_list (map (\<lambda>e. if P (fst e) then f (snd e) else 0) (map_set k v m)) =
     sum_list (map (\<lambda>e. if P (fst e) then f (snd e) else 0) m) +
     (if P k then f v - (case map_of m k of None \<Rightarrow> 0 | Some b \<Rightarrow> f b) else 0)"
  by (induction m) auto

lemma entries_map_set: "set (map_set k v m) \<subseteq> insert (k, v) (set m)"
  by (induction m) (auto split: if_splits)

lemma sum_filter_sort_key:
  fixes f :: "'b \<Rightarrow> int"
  shows "sum_list (map f (filter P (sort_key g xs))) = sum_list (map f (filter P xs))"
  by (simp only: sum_list_map_filter' sum_sort_key)

text \<open>Grouping by coach.\<close>

lemma coach_step_wsum:
  "sum_list (map (\<lambda>e. if P (fst e) then cs_attendees (snd e) else 0) (coach_step m b)) =
   sum_list (map (\<lambda>e. if P (fst e) then cs_attendees (snd e) else 0) m) +
   (if P (b_coach_name b) then attendees_of b else 0)"
  by (cases "map_of m (b_coach_name b)")
     (simp_all add: coach_step_def Let_def wsum_map_set map_get_def num_or_attendees)

lemma foldl_coach_wsum:
  "sum_list (map (\<lambda>e. if P (fst e) then cs_attendees (snd e) else 0) (foldl coach_step m bs)) =
   sum_list (map (\<lambda>e. if P (fst e) then cs_attendees (snd e) else 0) m) +
   sum_list (map (\<lambda>b. if P (b_coach_name b) then attendees_of b else 0) bs)"
  by (induction bs arbitrary: m) (simp_all add: coach_step_wsum)

lemma coach_step_names:
  assumes "\<forall>e \<in> set m. cs_name (snd e) = fst e"
  shows "\<forall>e \<in> set (coach_step m b). cs_name (snd e) = fst e"
proof -
  define cur where "cur = (case map_get m (b_coach_name b) of
      None \<Rightarrow> \<lparr>cs_name = b_coach_name b, cs_classes = 0, cs_attendees = 0\<rparr> | Some c \<Rightarrow> c)"
  have "cs_name cur = b_coach_name b"
  proof (cases "map_get m (b_coach_name b)")
    case None
    then show ?thesis by (simp add: cur_def)
  next
    case (Some c)
    then have "(b_coach_name b, c) \<in> set m" by (simp add: map_get_def map_of_SomeD)
    with assms Some show ?thesis by (force simp: cur_def)
  qed
  moreover have "coach_step m b = map_set (b_coach_name b)
      (cur\<lparr>cs_classes := cs_classes cur + 1,
           cs_attendees := cs_attendees cur + num_or (b_total_attendees b) 1\<rparr>) m"
    by (simp add: coach_step_def cur_def Let_def)
  ultimately show ?thesis using assms entries_map_set [of "b_coach_name b" _ m] by fastforce
qed

lemma foldl_coach_names:
  "\<forall>e \<in> set m. cs_name (snd e) = fst e \<Longrightarrow>
   \<forall>e \<in> set (foldl coach_step m bs). cs_name (snd e) = fst e"
proof (induction bs arbitrary: m)
  case Nil
  then show ?case by simp
next
  case (Cons b bs)
  from Cons.prems have "\<forall>e \<in> set (coach_step m b). cs_name (snd e) = fst e"
    by (rule coach_step_names)
  then have "\<forall>e \<in> set (foldl coach_step (coach_step m b) bs). cs_name (snd e) = fst e"
    by (rule Cons.IH)
  then show ?case by simp
qed

lemma by_coach_sum:
  "sum_list (map cs_attendees (filter (\<lambda>c. cs_name c = n)
      (sort_key g (map snd (foldl coach_step [] bs))))) =
   sum_list (map attendees_of (filter (\<lambda>b. b_coach_name b = n) bs))"
proof -
  let ?m = "foldl coach_step [] bs"
  have names: "\<forall>e \<in> set ?m. cs_name (snd e) = fst e" by (rule foldl_coach_names) simp
  have "sum_list (map cs_attendees (filter (\<lambda>c. cs_name c = n) (sort_key g (map snd ?m)))) =
      sum_list (map (\<lambda>c. if cs_name c = n then cs_attendees c else 0) (map snd ?m))"
    by (simp only: sum_filter_sort_key) (simp only: sum_list_map_filter')
  also have "\<dots> = sum_list (map (\<lambda>e. if cs_name (snd e) = n then cs_attendees (snd e) else 0) ?m)"
    by (simp only: map_map comp_def)
  also have "\<dots> = sum_list (map (\<lambda>e. if fst e = n then cs_attendees (snd e) else 0) ?m)"
    using names by (intro arg_cong [where f = sum_list] map_cong refl) simp
  also have "\<dots> = sum_list (map (\<lambda>b. if b_coach_name b = n then attendees_of b else 0) bs)"
    by (simp add: foldl_coach_wsum [where P = "\<lambda>k. k = n"])
  finally show ?thesis by (simp only: sum_list_map_filter')
qed

text \<open>Grouping by time.\<close>

lemma time_step_wsum:
  "sum_list (map (\<lambda>e. if P (fst e) then tm_attendees (snd e) else 0) (time_step m b)) =
   sum_list (map (\<lambda>e. if P (fst e) then tm_attendees (snd e) else 0) m) +
   (if P (b_session_time b) then attendees_of b else 0)"
  by (cases "map_of m (b_session_time b)")
     (simp_all add: time_step_def Let_def wsum_map_set map_get_def num_or_attendees)

lemma foldl_time_wsum:
  "sum_list (map (\<lambda>e. if P (fst e) then tm_attendees (snd e) else 0) (foldl time_step m bs)) =
   sum_list (map (\<lambda>e. if P (fst e) then tm_attendees (snd e) else 0) m) +
   sum_list (map (\<lambda>b. if P (b_session_time b) then attendees_of b else 0) bs)"
  by (induction bs arbitrary: m) (simp_all add: time_step_wsum)

lemma time_step_names:
  assumes "\<forall>e \<in> set m. tm_time (snd e) = fst e"
  shows "\<forall>e \<in> set (time_step m b). tm_time (snd e) = fst e"
proof -
  define cur where "cur = (case map_get m (b_session_time b) of
      None \<Rightarrow> \<lparr>tm_time = b_session_time b, tm_count = 0, tm_attendees = 0\<rparr> | Some c \<Rightarrow> c)"
  have "tm_time cur = b_session_time b"
  proof (cases "map_get m (b_session_time b)")
    case None
    then show ?thesis by (simp add: cur_def)
  next
    case (Some c)
    then have "(b_session_time b, c) \<in> set m" by (simp add: map_get_def map_of_SomeD)
    with assms Some show ?thesis by (force simp: cur_def)
  qed
  moreover have "time_step m b = map_set (b_session_time b)
      (cur\<lparr>tm_count := tm_count cur + 1,
           tm_attendees := tm_attendees cur + num_or (b_total_attendees b) 1\<rparr>) m"
    by (simp add: time_step_def cur_def Let_def)
  ultimately show ?thesis using assms entries_map_set [of "b_session_time b" _ m] by fastforce
qed

lemma foldl_time_names:
  "\<forall>e \<in> set m. tm_time (snd e) = fst e \<Longrightarrow>
   \<forall>e \<in> set (foldl time_step m bs). tm_time (snd e) = fst e"
proof (induction bs arbitrary: m)
  case Nil
  then show ?case by simp
next
  case (Cons b bs)
  from Cons.prems have "\<forall>e \<in> set (time_step m b). tm_time (snd e) = fst e"
    by (rule time_step_names)
  then have "\<forall>e \<in> set (foldl time_step (time_step m b) bs). tm_time (snd e) = fst e"
    by (rule Cons.IH)
  then show ?case by simp
qed

lemma by_time_sum:
  "sum_list (map tm_attendees (filter (\<lambda>c. tm_time c = n)
      (sort_key g (map snd (foldl time_step [] bs))))) =
   sum_list (map attendees_of (filter (\<lambda>b. b_session_time b = n) bs))"
proof -
  let ?m = "foldl time_step [] bs"
  have names: "\<forall>e \<in> set ?m. tm_time (snd e) = fst e" by (rule foldl_time_names) simp
  have "sum_list (map tm_attendees (filter (\<lambda>c. tm_time c = n) (sort_key g (map snd ?m)))) =
      sum_list (map (\<lambda>c. if tm_time c = n then tm_attendees c else 0) (map snd ?m))"
    by (simp only: sum_filter_sort_key) (simp only: sum_list_map_filter')
  also have "\<dots> = sum_list (map (\<lambda>e. if tm_time (snd e) = n then tm_attendees (snd e) else 0) ?m)"
    by (simp only: map_map comp_def)
  also have "\<dots> = sum_list (map (\<lambda>e. if fst e = n then tm_attendees (snd e) else 0) ?m)"
    using names by (intro arg_cong [where f = sum_list] map_cong refl) simp
  also have "\<dots> = sum_list (map (\<lambda>b. if b_session_time b = n then attendees_of b else 0) bs)"
    by (simp add: foldl_time_wsum [where P = "\<lambda>k. k = n"])
  finally show ?thesis by (simp only: sum_list_map_filter')
qed

lemma total_attendees_sum:
  "foldl (\<lambda>sum b. sum + num_or (b_total_attendees b) 1) s bs = s + sum_list (map attendees_of bs)"
  by (induction bs arbitrary: s) (simp_all add: num_or_attendees)

text \<open>Grouping by date and time, then by weekday and time.\<close>

lemma class_step_wsum:
  "sum_list (map (\<lambda>e. if P (fst e) then co_total_attendees (snd e) else 0) (class_step m b)) =
   sum_list (map (\<lambda>e. if P (fst e) then co_total_attendees (snd e) else 0) m) +
   (if P (b_session_date b, take 5 (b_session_time b)) then attendees_of b else 0)"
  by (cases "map_of m (b_session_date b, take 5 (b_session_time b))")
     (simp_all add: class_step_def Let_def wsum_map_set map_get_def num_or_attendees)

lemma foldl_class_wsum:
  "sum_list (map (\<lambda>e. if P (fst e) then co_total_attendees (snd e) else 0) (foldl class_step m bs)) =
   sum_list (map (\<lambda>e. if P (fst e) then co_total_attendees (snd e) else 0) m) +
   sum_list (map (\<lambda>b. if P (b_session_date b, take 5 (b_session_time b)) then attendees_of b else 0) bs)"
  by (induction bs arbitrary: m) (simp_all add: class_step_wsum)

lemma class_step_keys:
  assumes "\<forall>e \<in> set m. (co_date (snd e), co_time (snd e)) = fst e"
  shows "\<forall>e \<in> set (class_step m b). (co_date (snd e), co_time (snd e)) = fst e"
proof -
  define key where "key = (b_session_date b, take 5 (b_session_time b))"
  define cur where "cur = (case map_get m key of
      None \<Rightarrow> \<lparr>co_date = b_session_date b, co_time = take 5 (b_session_time b),
               co_total_attendees = 0\<rparr> | Some c \<Rightarrow> c)"
  have "(co_date cur, co_time cur) = key"
  proof (cases "map_get m key")
    case None
    then show ?thesis by (simp add: cur_def key_def)
  next
    case (Some c)
    then have "(key, c) \<in> set m" by (simp add: map_get_def map_of_SomeD)
    with assms Some show ?thesis by (force simp: cur_def)
  qed
  moreover have "class_step m b = map_set key
      (cur\<lparr>co_total_attendees := co_total_attendees cur + num_or (b_total_attendees b) 1\<rparr>) m"
    by (simp add: class_step_def cur_def key_def Let_def)
  ultimately show ?thesis using assms entries_map_set [of key _ m] by fastforce
qed

lemma foldl_class_keys:
  "\<forall>e \<in> set m. (co_date (snd e), co_time (snd e)) = fst e \<Longrightarrow>
   \<forall>e \<in> set (foldl class_step m bs). (co_date (snd e), co_time (snd e)) = fst e"
proof (induction bs arbitrary: m)
  case Nil
  then show ?case by simp
next
  case (Cons b bs)
  from Cons.prems have "\<forall>e \<in> set (class_step m b). (co_date (snd e), co_time (snd e)) = fst e"
    by (rule class_step_keys)
  then have "\<forall>e \<in> set (foldl class_step (class_step m b) bs).
      (co_date (snd e), co_time (snd e)) = fst e"
    by (rule Cons.IH)
  then show ?case by simp
qed

lemma new_slot_key:
  "sl_day (new_slot sm dn t) = dn" "sl_time (new_slot sm dn t) = t"
  "sl_total_attendees (new_slot sm dn t) = 0"
  by (simp_all add: new_slot_def Let_def)

lemma slot_step_wsum:
  "sum_list (map (\<lambda>e. if P (fst e) then sl_total_attendees (snd e) else 0) (slot_step sm m cls)) =
   sum_list (map (\<lambda>e. if P (fst e) then sl_total_attendees (snd e) else 0) m) +
   (if P (day_name_of (co_date cls), co_time cls) then co_total_attendees cls else 0)"
  by (cases "map_of m (day_name_of (co_date cls), co_time cls)")
     (simp_all add: slot_step_def Let_def wsum_map_set map_get_def new_slot_key)

lemma foldl_slot_wsum:
  "sum_list (map (\<lambda>e. if P (fst e) then sl_total_attendees (snd e) else 0)
      (foldl (slot_step sm) m cs)) =
   sum_list (map (\<lambda>e. if P (fst e) then sl_total_attendees (snd e) else 0) m) +
   sum_list (map (\<lambda>cls. if P (day_name_of (co_date cls), co_time cls)
                         then co_total_attendees cls else 0) cs)"
  by (induction cs arbitrary: m) (simp_all add: slot_step_wsum)

lemma slot_step_keys:
  assumes "\<forall>e \<in> set m. (sl_day (snd e), sl_time (snd e)) = fst e"
  shows "\<forall>e \<in> set (slot_step sm m cls). (sl_day (snd e), sl_time (snd e)) = fst e"
proof -
  define key where "key = (day_name_of (co_date cls), co_time cls)"
  define cur where "cur = (case map_get m key of
      None \<Rightarrow> new_slot sm (day_name_of (co_date cls)) (co_time cls) | Some s \<Rightarrow> s)"
  have "(sl_day cur, sl_time cur) = key"
  proof (cases "map_get m key")
    case None
    then show ?thesis by (simp add: cur_def key_def new_slot_key)
  next
    case (Some c)
    then have "(key, c) \<in> set m" by (simp add: map_get_def map_of_SomeD)
    with assms Some show ?thesis by (force simp: cur_def)
  qed
  moreover have "slot_step sm m cls = map_set key
      (cur\<lparr>sl_total_classes := sl_total_classes cur + 1,
           sl_total_attendees := sl_total_attendees cur + co_total_attendees cls\<rparr>) m"
    by (simp add: slot_step_def cur_def key_def Let_def)
  ultimately show ?thesis using assms entries_map_set [of key _ m] by fastforce
qed

lemma foldl_slot_keys:
  "\<forall>e \<in> set m. (sl_day (snd e), sl_time (snd e)) = fst e \<Longrightarrow>
   \<forall>e \<in> set (foldl (slot_step sm) m cs). (sl_day (snd e), sl_time (snd e)) = fst e"
proof (induction cs arbitrary: m)
  case Nil
  then show ?case by simp
next
  case (Cons c cs)
  from Cons.prems have "\<forall>e \<in> set (slot_step sm m c). (sl_day (snd e), sl_time (snd e)) = fst e"
    by (rule slot_step_keys)
  then have "\<forall>e \<in> set (foldl (slot_step sm) (slot_step sm m c) cs).
      (sl_day (snd e), sl_time (snd e)) = fst e"
    by (rule Cons.IH)
  then show ?case by simp
qed

lemma averages_keeps:
  "sl_day (averages s) = sl_day s" "sl_time (averages s) = sl_time s"
  "sl_total_attendees (averages s) = sl_total_attendees s"
  "sl_total_classes (averages s) = sl_total_classes s"
  "sl_max_capacity (averages s) = sl_max_capacity s"
  by (simp_all add: averages_def Let_def)

lemma slots_sum:
  "sum_list (map sl_total_attendees (filter (\<lambda>s. sl_time s = t)
      (sort_key sl_time (filter (\<lambda>s. sl_day s = Some day)
         (map averages (map snd (foldl (slot_step sm) [] (map snd (foldl class_step [] bs))))))))) =
   sum_list (map attendees_of
      (filter (\<lambda>b. day_name_of (b_session_date b) = Some day \<and> take 5 (b_session_time b) = t) bs))"
proof -
  let ?classes = "foldl class_step [] bs"
  let ?stats = "foldl (slot_step sm) [] (map snd ?classes)"
  have ck: "\<forall>e \<in> set ?classes. (co_date (snd e), co_time (snd e)) = fst e"
    by (rule foldl_class_keys) simp
  have sk: "\<forall>e \<in> set ?stats. (sl_day (snd e), sl_time (snd e)) = fst e"
    by (rule foldl_slot_keys) simp
  have "sum_list (map sl_total_attendees (filter (\<lambda>s. sl_time s = t)
      (sort_key sl_time (filter (\<lambda>s. sl_day s = Some day) (map averages (map snd ?stats)))))) =
    sum_list (map sl_total_attendees (filter (\<lambda>s. sl_time s = t)
      (filter (\<lambda>s. sl_day s = Some day) (map averages (map snd ?stats)))))"
    by (simp only: sum_filter_sort_key)
  also have "\<dots> = sum_list (map (\<lambda>e. if sl_day (averages (snd e)) = Some day \<and>
        sl_time (averages (snd e)) = t then sl_total_attendees (averages (snd e)) else 0) ?stats)"
    by (simp only: filter_filter sum_list_map_filter' map_map comp_def)
  also have "\<dots> = sum_list (map (\<lambda>e. if fst e = (Some day, t)
        then sl_total_attendees (snd e) else 0) ?stats)"
    using sk by (intro arg_cong [where f = sum_list] map_cong refl) (auto simp: averages_keeps)
  also have "\<dots> = sum_list (map (\<lambda>cls. if (day_name_of (co_date cls), co_time cls) = (Some day, t)
        then co_total_attendees cls else 0) (map snd ?classes))"
    by (simp add: foldl_slot_wsum [where P = "\<lambda>k. k = (Some day, t)"])
  also have "\<dots> = sum_list (map (\<lambda>e. if (day_name_of (co_date (snd e)), co_time (snd e)) = (Some day, t)
        then co_total_attendees (snd e) else 0) ?classes)"
    by (simp only: map_map comp_def)
  also have "\<dots> = sum_list (map (\<lambda>e. if (day_name_of (fst (fst e)), snd (fst e)) = (Some day, t)
        then co_total_attendees (snd e) else 0) ?classes)"
    using ck by (intro arg_cong [where f = sum_list] map_cong refl) force
  also have "\<dots> = sum_list (map (\<lambda>b. if (day_name_of (b_session_date b), take 5 (b_session_time b))
        = (Some day, t) then attendees_of b else 0) bs)"
    using foldl_class_wsum [where P = "\<lambda>k. (day_name_of (fst k), snd k) = (Some day, t)"
        and m = "[]" and bs = bs] by simp
  also have "\<dots> = sum_list (map attendees_of
      (filter (\<lambda>b. day_name_of (b_session_date b) = Some day \<and> take 5 (b_session_time b) = t) bs))"
    by (simp add: sum_list_map_filter')
  finally show ?thesis .
qed

text \<open>
  Claim C9. A booking whose \<open>total_attendees\<close> is missing, null or 0 has one attendee, any
  other booking as many as its \<open>total_attendees\<close> says, and every aggregation counts each
  booking with its attendees. In the result of \<^verbatim>\<open>getAttendanceStats\<close> the attendees of a
  coach are the sum of the attendees of the bookings of that coach, the attendees of a
  time the sum over the bookings at that time, and \<open>total_attendees\<close> the sum over all
  bookings. In the result of \<^verbatim>\<open>getWeeklySchedule\<close>, which has one entry for each day of
  \<^verbatim>\<open>dayOrder\<close>, the \<open>total_attendees\<close> of the slots of a day at a time are the sum of the
  attendees of the bookings on that weekday at that time, cut to its hour and minute. In
  the result of \<^verbatim>\<open>getCreditsComparison\<close> the \<open>credits_used\<close> of a period are the sum of the
  attendees of its bookings.
\<close>

theorem missing_attendees_count_one:
  "(b_total_attendees b = None \<or> b_total_attendees b = Some 0 \<longrightarrow> attendees_of b = 1) \<and>
   (\<forall>n. b_total_attendees b = Some n \<and> n \<noteq> 0 \<longrightarrow> attendees_of b = n) \<and>
   (\<exists>r. getAttendanceStats (Inr bookings) = Inr r \<and>
      (\<forall>n. sum_list (map cs_attendees (filter (\<lambda>c. cs_name c = n) (at_by_coach r))) =
           sum_list (map attendees_of (filter (\<lambda>b. b_coach_name b = n) bookings))) \<and>
      (\<forall>t. sum_list (map tm_attendees (filter (\<lambda>c. tm_time c = t) (at_by_time r))) =
           sum_list (map attendees_of (filter (\<lambda>b. b_session_time b = t) bookings))) \<and>
      at_total_attendees r = sum_list (map attendees_of bookings)) \<and>
   (\<exists>byDay. getWeeklySchedule (Inr bookings) sessionsR = Inr byDay \<and>
      map fst byDay = dayOrder \<and>
      (\<forall>day slots t. (day, slots) \<in> set byDay \<longrightarrow>
         sum_list (map sl_total_attendees (filter (\<lambda>s. sl_time s = t) slots)) =
         sum_list (map attendees_of
           (filter (\<lambda>b. day_name_of (b_session_date b) = Some day \<and>
                         take 5 (b_session_time b) = t) bookings)))) \<and>
   (\<exists>r. getCreditsComparison batches1R (Inr bookings) batches2R (Inr bookings') = Inr r \<and>
      ps_credits_used (cc_period1 r) = sum_list (map attendees_of bookings) \<and>
      ps_credits_used (cc_period2 r) = sum_list (map attendees_of bookings'))"
proof (intro conjI)
  show "b_total_attendees b = None \<or> b_total_attendees b = Some 0 \<longrightarrow> attendees_of b = 1"
    by (auto simp: attendees_of_def)
  show "\<forall>n. b_total_attendees b = Some n \<and> n \<noteq> 0 \<longrightarrow> attendees_of b = n"
    by (simp add: attendees_of_def)
  show "\<exists>r. getAttendanceStats (Inr bookings) = Inr r \<and>
      (\<forall>n. sum_list (map cs_attendees (filter (\<lambda>c. cs_name c = n) (at_by_coach r))) =
           sum_list (map attendees_of (filter (\<lambda>b. b_coach_name b = n) bookings))) \<and>
      (\<forall>t. sum_list (map tm_attendees (filter (\<lambda>c. tm_time c = t) (at_by_time r))) =
           sum_list (map attendees_of (filter (\<lambda>b. b_session_time b = t) bookings))) \<and>
      at_total_attendees r = sum_list (map attendees_of bookings)"
    by (simp add: getAttendanceStats_def rows_of_def Let_def by_coach_sum by_time_sum
        total_attendees_sum)
  show "\<exists>byDay. getWeeklySchedule (Inr bookings) sessionsR = Inr byDay \<and>
      map fst byDay = dayOrder \<and>
      (\<forall>day slots t. (day, slots) \<in> set byDay \<longrightarrow>
         sum_list (map sl_total_attendees (filter (\<lambda>s. sl_time s = t) slots)) =
         sum_list (map attendees_of
           (filter (\<lambda>b. day_name_of (b_session_date b) = Some day \<and>
                         take 5 (b_session_time b) = t) bookings)))"
  proof -
    define sm where "sm = sessionMap_of (rows_of sessionsR)"
    define stats where
      "stats = map averages (map snd (foldl (slot_step sm) [] (map snd (foldl class_step [] bookings))))"
    define byDay where
      "byDay = map (\<lambda>day. (day, sort_key sl_time (filter (\<lambda>s. sl_day s = Some day) stats))) dayOrder"
    have e: "getWeeklySchedule (Inr bookings) sessionsR = Inr byDay"
      by (simp add: getWeeklySchedule_def Let_def byDay_def stats_def sm_def)
    have f: "map fst byDay = dayOrder" by (simp add: byDay_def comp_def)
    have s: "sum_list (map sl_total_attendees (filter (\<lambda>s. sl_time s = t) slots)) =
         sum_list (map attendees_of
           (filter (\<lambda>b. day_name_of (b_session_date b) = Some day \<and>
                         take 5 (b_session_time b) = t) bookings))"
      if "(day, slots) \<in> set byDay" for day slots t
    proof -
      from that have "slots = sort_key sl_time (filter (\<lambda>s. sl_day s = Some day) stats)"
        by (auto simp: byDay_def)
      then show ?thesis unfolding stats_def by (simp only: slots_sum)
    qed
    from e f s show ?thesis by blast
  qed
  show "\<exists>r. getCreditsComparison batches1R (Inr bookings) batches2R (Inr bookings') = Inr r \<and>
      ps_credits_used (cc_period1 r) = sum_list (map attendees_of bookings) \<and>
      ps_credits_used (cc_period2 r) = sum_list (map attendees_of bookings')"
    by (simp add: getCreditsComparison_def Let_def credits_used_def rows_of_def
        total_attendees_sum)
qed

theorem missing_attendees_count_one_witness:
  "b_total_attendees (hd studio_bookings) = None \<and> attendees_of (hd studio_bookings) = 1 \<and>
   b_total_attendees (studio_bookings ! 1) = Some 0 \<and> attendees_of (studio_bookings ! 1) = 1 \<and>
   b_total_attendees (studio_bookings ! 2) = Some 3 \<and> attendees_of (studio_bookings ! 2) = 3 \<and>
   getAttendanceStats (Inr studio_bookings) = Inr studio_attendance \<and>
   sum_list (map attendees_of (filter (\<lambda>b. b_coach_name b = ''Luz'') studio_bookings)) = 2 \<and>
   sum_list (map attendees_of (filter (\<lambda>b. b_coach_name b = ''Mar'') studio_bookings)) = 4 \<and>
   sum_list (map attendees_of (filter (\<lambda>b. b_session_time b = ''09:00:00'') studio_bookings)) = 5 \<and>
   sum_list (map attendees_of (filter (\<lambda>b. b_session_time b = ''18:30:00'') studio_bookings)) = 1 \<and>
   sum_list (map attendees_of studio_bookings) = 6 \<and>
   getWeeklySchedule (Inr studio_bookings) (Inr []) = Inr studio_schedule \<and>
   (''LUNES'', [studio_monday]) \<in> set studio_schedule \<and>
   sum_list (map attendees_of
     (filter (\<lambda>b. day_name_of (b_session_date b) = Some ''LUNES'' \<and>
                   take 5 (b_session_time b) = ''09:00'') studio_bookings)) = 5 \<and>
   (''MARTES'', [studio_tuesday]) \<in> set studio_schedule \<and>
   sum_list (map attendees_of
     (filter (\<lambda>b. day_name_of (b_session_date b) = Some ''MARTES'' \<and>
                   take 5 (b_session_time b) = ''18:30'') studio_bookings)) = 1 \<and>
   getCreditsComparison (Inr []) (Inr studio_bookings) (Inr []) (Inr []) = Inr studio_comparison \<and>
   ps_credits_used (cc_period1 studio_comparison) = 6"
proof -
  note t = missing_attendees_count_one [where b = "hd studio_bookings"
      and bookings = studio_bookings and sessionsR = "Inr []" and batches1R = "Inr []"
      and batches2R = "Inr []" and bookings' = "[]"]
  have h: "b_total_attendees (hd studio_bookings) = None"
    by (simp add: studio_bookings_def mk_booking_def)
  from t h have one: "attendees_of (hd studio_bookings) = 1" by blast
  have h0: "b_total_attendees (studio_bookings ! 1) = Some 0"
    by (simp add: studio_bookings_def mk_booking_def)
  from h0 missing_attendees_count_one [where b = "studio_bookings ! 1", THEN conjunct1]
  have zero: "attendees_of (studio_bookings ! 1) = 1" by blast
  have h3: "b_total_attendees (studio_bookings ! 2) = Some 3"
    by (simp add: studio_bookings_def mk_booking_def)
  from h3 missing_attendees_count_one [where b = "studio_bookings ! 2", THEN conjunct2,
      THEN conjunct1, THEN spec [of _ 3]]
  have three: "attendees_of (studio_bookings ! 2) = 3" by simp
  have ea: "getAttendanceStats (Inr studio_bookings) = Inr studio_attendance" by code_simp
  from t obtain r where r: "getAttendanceStats (Inr studio_bookings) = Inr r"
    "\<And>n. sum_list (map cs_attendees (filter (\<lambda>c. cs_name c = n) (at_by_coach r))) =
           sum_list (map attendees_of (filter (\<lambda>b. b_coach_name b = n) studio_bookings))"
    "\<And>t. sum_list (map tm_attendees (filter (\<lambda>c. tm_time c = t) (at_by_time r))) =
           sum_list (map attendees_of (filter (\<lambda>b. b_session_time b = t) studio_bookings))"
    "at_total_attendees r = sum_list (map attendees_of studio_bookings)"
    by blast
  from r(1) ea have ra: "r = studio_attendance" by simp
  have luz: "sum_list (map attendees_of (filter (\<lambda>b. b_coach_name b = ''Luz'') studio_bookings)) = 2"
    unfolding r(2) [of "''Luz''", symmetric] ra by (simp add: studio_attendance_def)
  have mar: "sum_list (map attendees_of (filter (\<lambda>b. b_coach_name b = ''Mar'') studio_bookings)) = 4"
    unfolding r(2) [of "''Mar''", symmetric] ra by (simp add: studio_attendance_def)
  have nine: "sum_list (map attendees_of
      (filter (\<lambda>b. b_session_time b = ''09:00:00'') studio_bookings)) = 5"
    unfolding r(3) [of "''09:00:00''", symmetric] ra by (simp add: studio_attendance_def)
  have half: "sum_list (map attendees_of
      (filter (\<lambda>b. b_session_time b = ''18:30:00'') studio_bookings)) = 1"
    unfolding r(3) [of "''18:30:00''", symmetric] ra by (simp add: studio_attendance_def)
  have all: "sum_list (map attendees_of studio_bookings) = 6"
    unfolding r(4) [symmetric] ra by (simp add: studio_attendance_def)
  have ew: "getWeeklySchedule (Inr studio_bookings) (Inr []) = Inr studio_schedule" by code_simp
  have mem: "(''LUNES'', [studio_monday]) \<in> set studio_schedule"
    by (simp add: studio_schedule_def)
  from t obtain byDay where w: "getWeeklySchedule (Inr studio_bookings) (Inr []) = Inr byDay"
    "\<And>day slots t. (day, slots) \<in> set byDay \<Longrightarrow>
         sum_list (map sl_total_attendees (filter (\<lambda>s. sl_time s = t) slots)) =
         sum_list (map attendees_of
           (filter (\<lambda>b. day_name_of (b_session_date b) = Some day \<and>
                         take 5 (b_session_time b) = t) studio_bookings))"
    by blast
  from w(1) ew have "byDay = studio_schedule" by simp
  with mem have "(''LUNES'', [studio_monday]) \<in> set byDay" by simp
  from w(2) [OF this, of "''09:00''"]
  have slot: "sum_list (map attendees_of
     (filter (\<lambda>b. day_name_of (b_session_date b) = Some ''LUNES'' \<and>
                   take 5 (b_session_time b) = ''09:00'') studio_bookings)) = 5"
    by (simp add: studio_monday_def)
  have mem': "(''MARTES'', [studio_tuesday]) \<in> set studio_schedule"
    by (simp add: studio_schedule_def)
  with \<open>byDay = studio_schedule\<close> have "(''MARTES'', [studio_tuesday]) \<in> set byDay" by simp
  from w(2) [OF this, of "''18:30''"]
  have slot': "sum_list (map attendees_of
     (filter (\<lambda>b. day_name_of (b_session_date b) = Some ''MARTES'' \<and>
                   take 5 (b_session_time b) = ''18:30'') studio_bookings)) = 1"
    by (simp add: studio_tuesday_def)
  have ec: "getCreditsComparison (Inr []) (Inr studio_bookings) (Inr []) (Inr [])
      = Inr studio_comparison"
    by code_simp
  from t obtain c where c: "getCreditsComparison (Inr []) (Inr studio_bookings) (Inr []) (Inr [])
      = Inr c" "ps_credits_used (cc_period1 c) = sum_list (map attendees_of studio_bookings)"
    by blast
  from c(1) ec have "c = studio_comparison" by simp
  with c(2) all have used: "ps_credits_used (cc_period1 studio_comparison) = 6" by simp
  from h one h0 zero h3 three ea luz mar nine half all ew mem slot mem' slot' ec used show ?thesis by (intro conjI)
qed

section \<open>Weekly schedule: averages and occupancy of every slot\<close>










section \<open>Failed reads\<close>

lemma retention_total: "\<exists>r. getRetentionMetrics now cache r1 r2 r3 r4 = Inr r"
  by (simp add: getRetentionMetrics_def Let_def)

lemma retention_failed_read:
  "getRetentionMetrics now cache (Inl e) r2 r3 r4 = getRetentionMetrics now cache (Inr []) r2 r3 r4"
  "getRetentionMetrics now cache r1 (Inl e) r3 r4 = getRetentionMetrics now cache r1 (Inr []) r3 r4"
  "getRetentionMetrics now cache r1 r2 (Inl e) r4 = getRetentionMetrics now cache r1 r2 (Inr []) r4"
  "getRetentionMetrics now cache r1 r2 r3 (Inl e) = getRetentionMetrics now cache r1 r2 r3 (Inr [])"
  by (simp_all add: getRetentionMetrics_def rows_of_def)

lemma comparison_failed_read:
  "getCreditsComparison (Inl e) k1 b2 k2 = getCreditsComparison (Inr []) k1 b2 k2"
  "getCreditsComparison b1 (Inl e) b2 k2 = getCreditsComparison b1 (Inr []) b2 k2"
  "getCreditsComparison b1 k1 (Inl e) k2 = getCreditsComparison b1 k1 (Inr []) k2"
  "getCreditsComparison b1 k1 b2 (Inl e) = getCreditsComparison b1 k1 b2 (Inr [])"
  by (simp_all add: getCreditsComparison_def credits_purchased_def credits_used_def rows_of_def)

text \<open>
  Claim C1, as amended. A failed read is handed to the caller, and no result is returned,
  by the computations that look at the error of the read: \<^verbatim>\<open>getDormantClients\<close> and
  \<^verbatim>\<open>getDormantClientsPaginated\<close> for their bookings and credit batches,
  \<^verbatim>\<open>getPackageSalesByMonth\<close> and \<^verbatim>\<open>getPackageSalesByDateRange\<close> for their credit batches and
  packages, \<^verbatim>\<open>getTopBuyers\<close> and \<^verbatim>\<open>getTopBuyersByDateRange\<close> for their credit batches.
  \<^verbatim>\<open>getWeeklySchedule\<close> returns the empty object when its bookings read fails.
  \<^verbatim>\<open>getRetentionMetrics\<close>, \<^verbatim>\<open>getAttendanceStats\<close> and \<^verbatim>\<open>getCreditsComparison\<close> always return
  a result: the one they return when the failed read has no rows.
\<close>

theorem failed_reads:
  "getDormantClients now cache days (Inl e) batchesR = Inl e \<and>
   getDormantClients now cache days (Inr bookings) (Inl e) = Inl e \<and>
   getDormantClientsPaginated now cache days page pageSize (Inl e) batchesR = Inl e \<and>
   getDormantClientsPaginated now cache days page pageSize (Inr bookings) (Inl e) = Inl e \<and>
   getPackageSalesByMonth year (Inl e) packagesR = Inl e \<and>
   getPackageSalesByMonth year (Inr batches) (Inl e) = Inl e \<and>
   getPackageSalesByDateRange startDate endDate (Inl e) packagesR = Inl e \<and>
   getPackageSalesByDateRange startDate endDate (Inr batches) (Inl e) = Inl e \<and>
   getTopBuyers cache year limit (Inl e) packagesR = Inl e \<and>
   getTopBuyersByDateRange cache startDate endDate limit (Inl e) packagesR = Inl e \<and>
   getWeeklySchedule (Inl e) sessionsR = Inr [] \<and>
   getRetentionMetrics now cache (Inl e) r2 r3 r4
     = getRetentionMetrics now cache (Inr []) r2 r3 r4 \<and>
   getRetentionMetrics now cache r1 (Inl e) r3 r4
     = getRetentionMetrics now cache r1 (Inr []) r3 r4 \<and>
   getRetentionMetrics now cache r1 r2 (Inl e) r4
     = getRetentionMetrics now cache r1 r2 (Inr []) r4 \<and>
   getRetentionMetrics now cache r1 r2 r3 (Inl e)
     = getRetentionMetrics now cache r1 r2 r3 (Inr []) \<and>
   (\<exists>r. getRetentionMetrics now cache r1 r2 r3 r4 = Inr r) \<and>
   getAttendanceStats (Inl e) = getAttendanceStats (Inr []) \<and>
   (\<exists>r. getAttendanceStats bookingsR = Inr r) \<and>
   getCreditsComparison (Inl e) k1 b2 k2 = getCreditsComparison (Inr []) k1 b2 k2 \<and>
   getCreditsComparison b1 (Inl e) b2 k2 = getCreditsComparison b1 (Inr []) b2 k2 \<and>
   getCreditsComparison b1 k1 (Inl e) k2 = getCreditsComparison b1 k1 (Inr []) k2 \<and>
   getCreditsComparison b1 k1 b2 (Inl e) = getCreditsComparison b1 k1 b2 (Inr []) \<and>
   (\<exists>r. getCreditsComparison b1 k1 b2 k2 = Inr r)"
proof -
  have dormant: "getDormantClients now cache days (Inl e) batchesR = Inl e"
    "getDormantClients now cache days (Inr bookings) (Inl e) = Inl e"
    by (simp_all add: getDormantClients_def)
  then have paginated:
    "getDormantClientsPaginated now cache days page pageSize (Inl e) batchesR = Inl e"
    "getDormantClientsPaginated now cache days page pageSize (Inr bookings) (Inl e) = Inl e"
    by (simp_all add: getDormantClientsPaginated_def)
  have sales: "getPackageSalesByMonth year (Inl e) packagesR = Inl e"
    "getPackageSalesByMonth year (Inr batches) (Inl e) = Inl e"
    "getPackageSalesByDateRange startDate endDate (Inl e) packagesR = Inl e"
    "getPackageSalesByDateRange startDate endDate (Inr batches) (Inl e) = Inl e"
    by (simp_all add: getPackageSalesByMonth_def getPackageSalesByDateRange_def)
  have buyers: "getTopBuyers cache year limit (Inl e) packagesR = Inl e"
    "getTopBuyersByDateRange cache startDate endDate limit (Inl e) packagesR = Inl e"
    by (simp_all add: getTopBuyers_def getTopBuyersByDateRange_def)
  have schedule: "getWeeklySchedule (Inl e) sessionsR = Inr []"
    by (simp add: getWeeklySchedule_def)
  have attendance: "getAttendanceStats (Inl e) = getAttendanceStats (Inr [])"
    "\<exists>r. getAttendanceStats bookingsR = Inr r"
    by (simp_all add: getAttendanceStats_def rows_of_def Let_def)
  have comparison: "\<exists>r. getCreditsComparison b1 k1 b2 k2 = Inr r"
    by (simp add: getCreditsComparison_def Let_def)
  show ?thesis
    by (intro conjI dormant paginated sales buyers schedule attendance comparison
        retention_failed_read retention_total comparison_failed_read)
qed

text \<open>
  Claim C1 as stated fails: with a failing bookings read \<^verbatim>\<open>getWeeklySchedule\<close> returns the
  empty object, and \<^verbatim>\<open>getRetentionMetrics\<close> returns a report whose booking counts are 0
  beside the real counts of the credit batches.
\<close>

theorem swallowed_read_failure_counterexample:
  "getWeeklySchedule (Inl (DataStoreError ''timeout'')) (Inr []) = Inr [] \<and>
   getRetentionMetrics (100 * MS_DAY) None
     (Inl (DataStoreError ''timeout'')) (Inl (DataStoreError ''timeout''))
     (Inr [mk_batch ''ana'' None (Some 10) (80 * MS_DAY)])
     (Inr [mk_batch ''ana'' None (Some 10) (80 * MS_DAY)])
   = Inr \<lparr>rt_total_registered_users = 0, rt_total_unique_users = 0, rt_active_users_30_days = 0,
          rt_total_buyers_ever = 1, rt_buyers_last_30_days = 1, rt_users_with_credits = 1,
          rt_total_credits_pending = 10, rt_retention_rate = Number 0,
          rt_conversion_rate = Number 0\<rparr>"
  by code_simp

end
